theory Spec2Isabelle
  imports Main "HOL-Library.Sublist"
begin


section \<open>Errors and basic data\<close>

text \<open>
  Every exception of the Python code is a value: a fallible operation returns
  \<open>error + 'a\<close>, with \<open>Inl\<close> for the raised exception. \<open>CodecError\<close> stands for whatever a
  codec raises.
\<close>

datatype error = TypeError | IndexError | ValueError | AssertionError | CodecError

text \<open>
  A numpy array is a nested list of elements (integer dtypes; floating point is left out):
  \<open>Elem\<close> is a zero-dimensional array, \<open>Arr\<close> adds one leading dimension.
\<close>

datatype ndarray = Elem int | Arr "ndarray list"

text \<open>A slice is \<open>(start, stop)\<close> with step 1; a \<open>SliceSelection\<close> is a tuple of slices.\<close>

type_synonym slice = "nat \<times> nat"
type_synonym selection = "slice list"
type_synonym key = string
type_synonym bytes = "nat list"
type_synonym kvstore = "key \<rightharpoonup> bytes"

text \<open>\<open>ArraySpec\<close>: the per-chunk view of shape, dtype and fill value.\<close>

record array_spec =
  shape :: "nat list"
  dtype :: string
  fill_value :: int

section \<open>Codec contracts\<close>

text \<open>
  The codec classes are abstract (\<open>zarr.v3.abc.codec\<close>): a codec is a record of its
  methods. \<open>encode_batch\<close> and \<open>decode_batch\<close> receive the zipped (chunk, spec) pairs and
  may raise. An array-bytes codec that implements a partial mixin carries the mixin's
  method; that method is handed store paths, so it acts on the store.
\<close>

record ('a, 'b) codec =
  resolve_metadata :: "array_spec \<Rightarrow> array_spec"
  encode_batch :: "('a option \<times> array_spec) list \<Rightarrow> error + 'b option list"
  decode_batch :: "('b option \<times> array_spec) list \<Rightarrow> error + 'a option list"

record ab_codec = "(ndarray, bytes) codec" +
  decode_partial_mixin ::
    "((key \<times> selection \<times> array_spec) list \<Rightarrow> kvstore
       \<Rightarrow> (error + ndarray option list) \<times> kvstore) option"
  encode_partial_mixin ::
    "((key \<times> ndarray \<times> selection \<times> array_spec) list \<Rightarrow> kvstore
       \<Rightarrow> (error + unit) \<times> kvstore) option"

type_synonym aa_codec = "(ndarray, ndarray) codec"
type_synonym bb_codec = "(bytes, bytes) codec"

record pipeline =
  array_array_codecs :: "aa_codec list"
  array_bytes_codec :: ab_codec
  bytes_bytes_codecs :: "bb_codec list"

section \<open>The world: store contents and the calls made\<close>

text \<open>
  The pipeline's effects are its store operations and its calls into the codecs. Both are
  appended to a trace in the order they are made; a codec call is recorded with the specs
  of the pairs it is handed.
\<close>

datatype stage = AA aa_codec | AB ab_codec | BB bb_codec

datatype call = Enc stage | Dec stage

datatype event =
    StoreGet key
  | StoreSet key bytes
  | StoreDelete key
  | CodecCall call "array_spec list"
  | DecodePartial ab_codec "(key \<times> selection \<times> array_spec) list"
  | EncodePartial ab_codec "(key \<times> ndarray \<times> selection \<times> array_spec) list"

record world =
  store :: kvstore
  trace :: "event list"

definition emit :: "event \<Rightarrow> world \<Rightarrow> world" where
  "emit e w = w\<lparr>trace := trace w @ [e]\<rparr>"

definition new_events :: "world \<Rightarrow> world \<Rightarrow> event list" where
  "new_events w w' = drop (length (trace w)) (trace w')"

fun calls_of :: "event list \<Rightarrow> call list" where
  "calls_of [] = []"
| "calls_of (CodecCall c ss # es) = c # calls_of es"
| "calls_of (e # es) = calls_of es"

fun codec_calls :: "event list \<Rightarrow> (call \<times> array_spec list) list" where
  "codec_calls [] = []"
| "codec_calls (CodecCall c ss # es) = (c, ss) # codec_calls es"
| "codec_calls (e # es) = codec_calls es"

section \<open>batched_pipeline.py\<close>

definition unzip2 :: "('t \<times> 'u) list \<Rightarrow> 't list \<times> 'u list" where
  "unzip2 iterable = (map fst iterable, map snd iterable)"

definition resolve_batched ::
    "('a, 'b, 'm) codec_scheme \<Rightarrow> array_spec list \<Rightarrow> array_spec list" where
  "resolve_batched c chunk_specs = map (resolve_metadata c) chunk_specs"

text \<open>
  \<open>_codecs_with_resolved_metadata_batched\<close>: each loop pairs a codec with the specs current
  when it is reached, then resolves the specs through that codec.
\<close>

fun with_resolved_loop ::
    "('a, 'b) codec list \<Rightarrow> array_spec list
      \<Rightarrow> (('a, 'b) codec \<times> array_spec list) list \<times> array_spec list" where
  "with_resolved_loop [] chunk_specs = ([], chunk_specs)"
| "with_resolved_loop (c # cs) chunk_specs =
     (case with_resolved_loop cs (map (resolve_metadata c) chunk_specs) of
        (rest, final) \<Rightarrow> ((c, chunk_specs) # rest, final))"

definition codecs_with_resolved_metadata_batched ::
    "pipeline \<Rightarrow> array_spec list
      \<Rightarrow> (aa_codec \<times> array_spec list) list \<times> (ab_codec \<times> array_spec list)
          \<times> (bb_codec \<times> array_spec list) list" where
  "codecs_with_resolved_metadata_batched p chunk_specs =
     (case with_resolved_loop (array_array_codecs p) chunk_specs of
        (aa_codecs_with_spec, specs1) \<Rightarrow>
          (let ab_codec_with_spec = (array_bytes_codec p, specs1);
               specs2 = map (resolve_metadata (array_bytes_codec p)) specs1
           in case with_resolved_loop (bytes_bytes_codecs p) specs2 of
                (bb_codecs_with_spec, specs3) \<Rightarrow>
                  (aa_codecs_with_spec, ab_codec_with_spec, bb_codecs_with_spec)))"

text \<open>
  The decode loops of \<open>decode_batched\<close> run over an already reversed list of
  (codec, specs) pairs; \<open>mk\<close> tags the codec with its family for the trace.
\<close>

fun decode_loop ::
    "(('a, 'a) codec \<Rightarrow> stage) \<Rightarrow> (('a, 'a) codec \<times> array_spec list) list
      \<Rightarrow> 'a option list \<Rightarrow> world \<Rightarrow> (error + 'a option list) \<times> world" where
  "decode_loop mk [] batch w = (Inr batch, w)"
| "decode_loop mk ((c, chunk_spec_batch) # rest) batch w =
     (let args = zip batch chunk_spec_batch;
          w1 = emit (CodecCall (Dec (mk c)) (map snd args)) w
      in case decode_batch c args of
           Inl e \<Rightarrow> (Inl e, w1)
         | Inr batch' \<Rightarrow> decode_loop mk rest batch' w1)"

definition decode_batched ::
    "pipeline \<Rightarrow> (bytes option \<times> array_spec) list \<Rightarrow> world
      \<Rightarrow> (error + ndarray option list) \<times> world" where
  "decode_batched p chunk_bytes_and_specs w =
     (case unzip2 chunk_bytes_and_specs of
        (chunk_bytes_batch, chunk_specs) \<Rightarrow>
     (case codecs_with_resolved_metadata_batched p chunk_specs of
        (aa_codecs_with_spec, ab_codec_with_spec, bb_codecs_with_spec) \<Rightarrow>
     (case decode_loop BB (rev bb_codecs_with_spec) chunk_bytes_batch w of
        (Inl e, w1) \<Rightarrow> (Inl e, w1)
      | (Inr chunk_bytes_batch1, w1) \<Rightarrow>
     (case ab_codec_with_spec of
        (ab, chunk_spec_batch) \<Rightarrow>
     (let args = zip chunk_bytes_batch1 chunk_spec_batch;
          w2 = emit (CodecCall (Dec (AB ab)) (map snd args)) w1
      in case decode_batch ab args of
           Inl e \<Rightarrow> (Inl e, w2)
         | Inr chunk_array_batch \<Rightarrow>
             decode_loop AA (rev aa_codecs_with_spec) chunk_array_batch w2)))))"

text \<open>
  The encode loops of \<open>encode_batched\<close> resolve the specs as they go: the loop returns the
  batch and the specs for the next stage.
\<close>

fun encode_loop ::
    "(('a, 'a) codec \<Rightarrow> stage) \<Rightarrow> ('a, 'a) codec list \<Rightarrow> 'a option list
      \<Rightarrow> array_spec list \<Rightarrow> world
      \<Rightarrow> (error + 'a option list \<times> array_spec list) \<times> world" where
  "encode_loop mk [] batch chunk_specs w = (Inr (batch, chunk_specs), w)"
| "encode_loop mk (c # rest) batch chunk_specs w =
     (let args = zip batch chunk_specs;
          w1 = emit (CodecCall (Enc (mk c)) (map snd args)) w
      in case encode_batch c args of
           Inl e \<Rightarrow> (Inl e, w1)
         | Inr batch' \<Rightarrow> encode_loop mk rest batch' (resolve_batched c chunk_specs) w1)"

definition encode_batched ::
    "pipeline \<Rightarrow> (ndarray option \<times> array_spec) list \<Rightarrow> world
      \<Rightarrow> (error + bytes option list) \<times> world" where
  "encode_batched p chunk_arrays_and_specs w =
     (case unzip2 chunk_arrays_and_specs of
        (chunk_array_batch, chunk_specs) \<Rightarrow>
     (case encode_loop AA (array_array_codecs p) chunk_array_batch chunk_specs w of
        (Inl e, w1) \<Rightarrow> (Inl e, w1)
      | (Inr (chunk_array_batch1, chunk_specs1), w1) \<Rightarrow>
     (let args = zip chunk_array_batch1 chunk_specs1;
          w2 = emit (CodecCall (Enc (AB (array_bytes_codec p))) (map snd args)) w1
      in case encode_batch (array_bytes_codec p) args of
           Inl e \<Rightarrow> (Inl e, w2)
         | Inr chunk_bytes_batch \<Rightarrow>
             (case encode_loop BB (bytes_bytes_codecs p) chunk_bytes_batch
                     (resolve_batched (array_bytes_codec p) chunk_specs1) w2 of
                (Inl e, w3) \<Rightarrow> (Inl e, w3)
              | (Inr (chunk_bytes_batch1, chunk_specs2), w3) \<Rightarrow>
                  (Inr chunk_bytes_batch1, w3)))))"

section \<open>Reading the trace\<close>

text \<open>
  \<open>store_ops\<close> keeps the store operations of a trace. \<open>stages\<close> is the codec list in order;
  \<open>stage_specs\<close> pairs every stage with the specs that
  \<open>_codecs_with_resolved_metadata_batched\<close> computes for it. A codec \<open>keeps_length\<close> when
  a batch call that returns yields one output per input (the contract
  \<open>(chunk, spec)* \<rightarrow> chunk*\<close>).
\<close>

fun is_store_op :: "event \<Rightarrow> bool" where
  "is_store_op (StoreGet k) = True"
| "is_store_op (StoreSet k b) = True"
| "is_store_op (StoreDelete k) = True"
| "is_store_op e = False"

definition store_ops :: "event list \<Rightarrow> event list" where
  "store_ops evs = filter is_store_op evs"

definition stage_specs :: "pipeline \<Rightarrow> array_spec list \<Rightarrow> (stage \<times> array_spec list) list" where
  "stage_specs p chunk_specs =
     (case codecs_with_resolved_metadata_batched p chunk_specs of
        (aa, (ab, ab_specs), bb) \<Rightarrow>
          map (\<lambda>(c, ss). (AA c, ss)) aa @ [(AB ab, ab_specs)] @ map (\<lambda>(c, ss). (BB c, ss)) bb)"

definition stages :: "pipeline \<Rightarrow> stage list" where
  "stages p =
     map AA (array_array_codecs p) @ [AB (array_bytes_codec p)] @ map BB (bytes_bytes_codecs p)"

definition keeps_length :: "('a, 'b, 'm) codec_scheme \<Rightarrow> bool" where
  "keeps_length c =
     ((\<forall>xs ys. encode_batch c xs = Inr ys \<longrightarrow> length ys = length xs) \<and>
      (\<forall>xs ys. decode_batch c xs = Inr ys \<longrightarrow> length ys = length xs))"

definition aligned :: "pipeline \<Rightarrow> bool" where
  "aligned p =
     ((\<forall>c \<in> set (array_array_codecs p). keeps_length c) \<and> keeps_length (array_bytes_codec p) \<and>
      (\<forall>c \<in> set (bytes_bytes_codecs p). keeps_length c))"

text \<open>
  A codec is \<open>none_through\<close> when a batch call that returns yields one output per input and
  \<open>None\<close> at every position whose input chunk is \<open>None\<close> (the contract: a decoder yields
  \<open>None\<close> for an absent chunk, an encoder accepts \<open>None\<close> by producing \<open>None\<close>).
\<close>

definition none_through :: "('a, 'b, 'm) codec_scheme \<Rightarrow> bool" where
  "none_through c =
     ((\<forall>xs ys. encode_batch c xs = Inr ys \<longrightarrow>
         length ys = length xs \<and> (\<forall>i < length xs. fst (xs ! i) = None \<longrightarrow> ys ! i = None)) \<and>
      (\<forall>xs ys. decode_batch c xs = Inr ys \<longrightarrow>
         length ys = length xs \<and> (\<forall>i < length xs. fst (xs ! i) = None \<longrightarrow> ys ! i = None)))"

definition passes_none :: "pipeline \<Rightarrow> bool" where
  "passes_none p =
     ((\<forall>c \<in> set (array_array_codecs p). none_through c) \<and> none_through (array_bytes_codec p) \<and>
      (\<forall>c \<in> set (bytes_bytes_codecs p). none_through c))"

section \<open>numpy: the array operations the pipeline uses\<close>

text \<open>
  Indexing with a tuple of slices, assignment through such an index with numpy's
  broadcasting, \<open>np.empty(shape)\<close> followed by \<open>fill(v)\<close>, and \<open>np.all(a == v)\<close>. The shape
  of a nested list is read off its first elements, so inner dimensions behind a dimension
  of extent 0 are not represented.
\<close>

fun collect :: "(error + 'a) list \<Rightarrow> error + 'a list" where
  "collect [] = Inr []"
| "collect (Inl e # rs) = Inl e"
| "collect (Inr x # rs) = (case collect rs of Inl e \<Rightarrow> Inl e | Inr xs \<Rightarrow> Inr (x # xs))"

fun np_shape :: "ndarray \<Rightarrow> nat list" where
  "np_shape (Elem v) = []"
| "np_shape (Arr []) = [0]"
| "np_shape (Arr (x # xs)) = Suc (length xs) # np_shape x"

definition np_ndim :: "ndarray \<Rightarrow> nat" where
  "np_ndim a = length (np_shape a)"

fun np_full :: "nat list \<Rightarrow> int \<Rightarrow> ndarray" where
  "np_full [] v = Elem v"
| "np_full (n # ns) v = Arr (replicate n (np_full ns v))"

definition np_zeros :: "nat list \<Rightarrow> ndarray" where
  "np_zeros s = np_full s 0"

fun np_all_eq :: "ndarray \<Rightarrow> int \<Rightarrow> bool" where
  "np_all_eq (Elem x) v = (x = v)"
| "np_all_eq (Arr xs) v = list_all (\<lambda>x. np_all_eq x v) xs"

text \<open>
  \<open>a[sel]\<close>: a slice \<open>(start, stop)\<close> keeps the positions from \<open>start\<close> up to \<open>stop\<close>, clipped
  to the extent; dimensions beyond the tuple are kept whole; more slices than dimensions
  raise \<open>IndexError\<close>.
\<close>

function np_getitem :: "ndarray \<Rightarrow> selection \<Rightarrow> error + ndarray" where
  "np_getitem a [] = Inr a"
| "np_getitem (Elem x) (s # sel) = Inl IndexError"
| "np_getitem (Arr xs) (s # sel) =
     (case collect (map (\<lambda>x. np_getitem x sel) (take (snd s - fst s) (drop (fst s) xs))) of
        Inl e \<Rightarrow> Inl e
      | Inr ys \<Rightarrow> Inr (Arr ys))"
  by pat_completeness auto
termination
proof (relation "measure (\<lambda>(a, sel). size a)")
  show "wf (measure (\<lambda>(a, sel). size a))" by simp
next
  fix xs :: "ndarray list" and s :: slice and sel :: selection and x
  assume "x \<in> set (take (snd s - fst s) (drop (fst s) xs))"
  then have "x \<in> set xs" by (meson in_set_takeD in_set_dropD)
  then have "size x < Suc (size_list size xs)" by (simp add: less_Suc_eq_le size_list_estimation')
  then show "((x, sel), (Arr xs, s # sel)) \<in> measure (\<lambda>(a, sel). size a)" by simp
qed

text \<open>
  Broadcasting a source to a target shape, as numpy does on assignment: leading
  dimensions of extent 1 that the target lacks are dropped, missing leading dimensions
  are added, and a dimension of extent 1 is repeated.
\<close>

fun strip_unit_dims :: "nat \<Rightarrow> ndarray \<Rightarrow> ndarray option" where
  "strip_unit_dims 0 a = Some a"
| "strip_unit_dims (Suc k) (Arr [x]) = strip_unit_dims k x"
| "strip_unit_dims (Suc k) a = None"

fun stretch :: "ndarray \<Rightarrow> nat list \<Rightarrow> ndarray option" where
  "stretch a [] = (case a of Elem v \<Rightarrow> Some a | Arr xs \<Rightarrow> None)"
| "stretch a (n # ns) =
     (if np_ndim a < Suc (length ns) then map_option (\<lambda>y. Arr (replicate n y)) (stretch a ns)
      else case a of
             Elem v \<Rightarrow> None
           | Arr xs \<Rightarrow>
               if length xs = n then map_option Arr (those (map (\<lambda>x. stretch x ns) xs))
               else if length xs = 1 then map_option (\<lambda>y. Arr (replicate n y)) (stretch (hd xs) ns)
               else None)"

definition np_broadcast_to :: "ndarray \<Rightarrow> nat list \<Rightarrow> ndarray option" where
  "np_broadcast_to src target =
     (case strip_unit_dims (np_ndim src - length target) src of
        None \<Rightarrow> None
      | Some a \<Rightarrow> stretch a target)"

text \<open>\<open>np_put a sel b\<close> writes \<open>b\<close>, already of the region's shape, over the region \<open>a[sel]\<close>.\<close>

function np_put :: "ndarray \<Rightarrow> selection \<Rightarrow> ndarray \<Rightarrow> ndarray" where
  "np_put a [] b = b"
| "np_put (Elem x) (s # sel) b = Elem x"
| "np_put (Arr xs) (s # sel) (Elem v) = Arr xs"
| "np_put (Arr xs) (s # sel) (Arr bs) =
     (let region = take (snd s - fst s) (drop (fst s) xs)
      in Arr (take (fst s) xs @ map (\<lambda>xb. np_put (fst xb) sel (snd xb)) (zip region bs)
              @ drop (fst s + length region) xs))"
  by pat_completeness auto
termination
proof (relation "measure (\<lambda>(a, sel, b). size a)")
  show "wf (measure (\<lambda>(a, sel, b). size a))" by simp
next
  fix xs bs :: "ndarray list" and s :: slice and sel :: selection and region xb
  assume "region = take (snd s - fst s) (drop (fst s) xs)" "xb \<in> set (zip region bs)"
  then have "fst xb \<in> set xs"
    by (metis in_set_takeD in_set_dropD set_zip_leftD prod.collapse)
  then have "size (fst xb) < Suc (size_list size xs)"
    by (simp add: less_Suc_eq_le size_list_estimation')
  then show "((fst xb, sel, snd xb), (Arr xs, s # sel, Arr bs)) \<in> measure (\<lambda>(a, sel, b). size a)"
    by simp
qed

text \<open>\<open>a[sel] = src\<close>, returning the updated array.\<close>

definition np_setitem :: "ndarray \<Rightarrow> selection \<Rightarrow> ndarray \<Rightarrow> error + ndarray" where
  "np_setitem a sel src =
     (case np_getitem a sel of
        Inl e \<Rightarrow> Inl e
      | Inr region \<Rightarrow>
          (case np_broadcast_to src (np_shape region) of
             None \<Rightarrow> Inl ValueError
           | Some b \<Rightarrow> Inr (np_put a sel b)))"

text \<open>
  The \<open>value\<close> handed to \<open>setitem\<close> is a Python scalar or an array. Indexing a Python
  scalar raises \<open>TypeError\<close>.
\<close>

datatype pyvalue = Scalar int | Array ndarray

fun value_getitem :: "pyvalue \<Rightarrow> selection \<Rightarrow> error + ndarray" where
  "value_getitem (Scalar v) sel = Inl TypeError"
| "value_getitem (Array a) sel = np_getitem a sel"

section \<open>Store paths, the bounded map and the pipeline's capabilities\<close>

text \<open>
  Modelled from the spec: the store contract of the missing \<open>zarr.v3.store\<close>. A store
  path is its key; \<open>get\<close> of an absent key returns \<open>None\<close>, \<open>set\<close> binds the key, \<open>delete\<close> of
  an absent key is a no-op. Each operation is appended to the trace. Store failures other
  than an absent key are not modelled.
\<close>

definition store_get :: "key \<Rightarrow> world \<Rightarrow> (error + bytes option) \<times> world" where
  "store_get k w = (Inr (store w k), emit (StoreGet k) w)"

definition store_set :: "key \<Rightarrow> bytes \<Rightarrow> world \<Rightarrow> (error + unit) \<times> world" where
  "store_set k b w = (Inr (), emit (StoreSet k b) (w\<lparr>store := (store w)(k \<mapsto> b)\<rparr>))"

definition store_delete :: "key \<Rightarrow> world \<Rightarrow> (error + unit) \<times> world" where
  "store_delete k w = (Inr (), emit (StoreDelete k) (w\<lparr>store := (store w)(k := None)\<rparr>))"

text \<open>
  Modelled from the spec: \<open>concurrent_map(items, fn, limit)\<close> of the missing
  \<open>zarr.v3.common\<close> runs \<open>fn\<close> on every item and returns the results in input order. The
  model runs the items one after the other in input order; the limit has no effect on
  the results and is left out.
\<close>

fun concurrent_map ::
    "'a list \<Rightarrow> ('a \<Rightarrow> world \<Rightarrow> (error + 'b) \<times> world) \<Rightarrow> world \<Rightarrow> (error + 'b list) \<times> world" where
  "concurrent_map [] f w = (Inr [], w)"
| "concurrent_map (x # xs) f w =
     (case f x w of
        (Inl e, w1) \<Rightarrow> (Inl e, w1)
      | (Inr y, w1) \<Rightarrow>
          (case concurrent_map xs f w1 of
             (Inl e, w2) \<Rightarrow> (Inl e, w2)
           | (Inr ys, w2) \<Rightarrow> (Inr (y # ys), w2)))"

text \<open>
  Modelled from the spec: \<open>is_total_slice\<close> of the missing \<open>zarr.v3.indexing\<close> holds when the
  selection covers \<open>[0, C_i)\<close> on every dimension of the chunk shape.
\<close>

definition is_total_slice :: "selection \<Rightarrow> nat list \<Rightarrow> bool" where
  "is_total_slice item chunk_shape =
     list_all2 (\<lambda>dim_sel dim_len. fst dim_sel = 0 \<and> dim_len \<le> snd dim_sel) item chunk_shape"

text \<open>
  Modelled from the spec: \<open>supports_partial_decode\<close> and \<open>supports_partial_encode\<close> of the
  missing \<open>CodecPipeline\<close> base class hold when the array-bytes codec implements the mixin
  and there are no other codecs.
\<close>

definition supports_partial_decode :: "pipeline \<Rightarrow> bool" where
  "supports_partial_decode p =
     (decode_partial_mixin (array_bytes_codec p) \<noteq> None
      \<and> array_array_codecs p = [] \<and> bytes_bytes_codecs p = [])"

definition supports_partial_encode :: "pipeline \<Rightarrow> bool" where
  "supports_partial_encode p =
     (encode_partial_mixin (array_bytes_codec p) \<noteq> None
      \<and> array_array_codecs p = [] \<and> bytes_bytes_codecs p = [])"

section \<open>batched_pipeline.py: reading and writing a batch\<close>

text \<open>
  A batch item is \<open>(store_path, chunk_spec, chunk_selection, out_selection)\<close>; \<open>batch_info\<close>
  is a list of them (the callers pass lists; it is iterated more than once).
\<close>

type_synonym batch_item = "key \<times> array_spec \<times> selection \<times> selection"

definition decode_partial_batched ::
    "pipeline \<Rightarrow> (key \<times> selection \<times> array_spec) list \<Rightarrow> world
      \<Rightarrow> (error + ndarray option list) \<times> world" where
  "decode_partial_batched p batch_info w =
     (if \<not> supports_partial_decode p then (Inl AssertionError, w)
      else case decode_partial_mixin (array_bytes_codec p) of
             None \<Rightarrow> (Inl AssertionError, w)
           | Some decode_partial \<Rightarrow>
               (let w1 = emit (DecodePartial (array_bytes_codec p) batch_info) w
                in case decode_partial batch_info (store w1) of
                     (r, s) \<Rightarrow> (r, w1\<lparr>store := s\<rparr>)))"

text \<open>
  The two loops of \<open>read_batched\<close> that write into \<open>out\<close>. \<open>out\<close> is the caller's buffer: it
  is passed in and returned as updated, also when an assignment raises part way.
\<close>

definition out_partial :: "batch_item \<Rightarrow> ndarray option \<Rightarrow> ndarray \<Rightarrow> error + ndarray" where
  "out_partial item chunk_array out =
     (case item of (store_path, chunk_spec, chunk_selection, out_selection) \<Rightarrow>
        (case chunk_array of
           Some a \<Rightarrow> np_setitem out out_selection a
         | None \<Rightarrow> np_setitem out out_selection (Elem (fill_value chunk_spec))))"

definition out_chunk :: "batch_item \<Rightarrow> ndarray option \<Rightarrow> ndarray \<Rightarrow> error + ndarray" where
  "out_chunk item chunk_array out =
     (case item of (store_path, chunk_spec, chunk_selection, out_selection) \<Rightarrow>
        (case chunk_array of
           Some a \<Rightarrow>
             (case np_getitem a chunk_selection of
                Inl e \<Rightarrow> Inl e
              | Inr tmp \<Rightarrow> np_setitem out out_selection tmp)
         | None \<Rightarrow> np_setitem out out_selection (Elem (fill_value chunk_spec))))"

fun out_loop ::
    "(batch_item \<Rightarrow> ndarray option \<Rightarrow> ndarray \<Rightarrow> error + ndarray)
      \<Rightarrow> (ndarray option \<times> batch_item) list \<Rightarrow> ndarray \<Rightarrow> (error + unit) \<times> ndarray" where
  "out_loop body [] out = (Inr (), out)"
| "out_loop body ((chunk_array, item) # rest) out =
     (case body item chunk_array out of
        Inl e \<Rightarrow> (Inl e, out)
      | Inr out' \<Rightarrow> out_loop body rest out')"

definition read_batched ::
    "pipeline \<Rightarrow> batch_item list \<Rightarrow> ndarray \<Rightarrow> world \<Rightarrow> ((error + unit) \<times> ndarray) \<times> world" where
  "read_batched p batch_info out w =
     (if supports_partial_decode p then
        (case decode_partial_batched p
                (map (\<lambda>(store_path, chunk_spec, chunk_selection, out_selection).
                        (store_path, chunk_selection, chunk_spec)) batch_info) w of
           (Inl e, w1) \<Rightarrow> ((Inl e, out), w1)
         | (Inr chunk_array_batch, w1) \<Rightarrow>
             (out_loop out_partial (zip chunk_array_batch batch_info) out, w1))
      else
        (case concurrent_map (map fst batch_info) store_get w of
           (Inl e, w1) \<Rightarrow> ((Inl e, out), w1)
         | (Inr chunk_bytes_batch, w1) \<Rightarrow>
             (case decode_batched p
                     (map (\<lambda>(chunk_bytes, (store_path, chunk_spec, chunk_selection, out_selection)).
                             (chunk_bytes, chunk_spec)) (zip chunk_bytes_batch batch_info)) w1 of
                (Inl e, w2) \<Rightarrow> ((Inl e, out), w2)
              | (Inr chunk_array_batch, w2) \<Rightarrow>
                  (out_loop out_chunk (zip chunk_array_batch batch_info) out, w2))))"

definition encode_partial_batched ::
    "pipeline \<Rightarrow> (key \<times> ndarray \<times> selection \<times> array_spec) list \<Rightarrow> world
      \<Rightarrow> (error + unit) \<times> world" where
  "encode_partial_batched p batch_info w =
     (if \<not> supports_partial_encode p then (Inl AssertionError, w)
      else case encode_partial_mixin (array_bytes_codec p) of
             None \<Rightarrow> (Inl AssertionError, w)
           | Some encode_partial \<Rightarrow>
               (let w1 = emit (EncodePartial (array_bytes_codec p) batch_info) w
                in case encode_partial batch_info (store w1) of
                     (r, s) \<Rightarrow> (r, w1\<lparr>store := s\<rparr>)))"

subsection \<open>write_batched: reading the existing chunks\<close>

definition read_key :: "key option \<Rightarrow> world \<Rightarrow> (error + bytes option) \<times> world" where
  "read_key store_path w =
     (case store_path of None \<Rightarrow> (Inr None, w) | Some k \<Rightarrow> store_get k w)"

definition read_existing ::
    "pipeline \<Rightarrow> batch_item list \<Rightarrow> world \<Rightarrow> (error + ndarray option list) \<times> world" where
  "read_existing p batch_info w =
     (case concurrent_map
             (map (\<lambda>(store_path, chunk_spec, chunk_selection, out_selection).
                     if is_total_slice chunk_selection (shape chunk_spec) then None
                     else Some store_path) batch_info)
             read_key w of
        (Inl e, w1) \<Rightarrow> (Inl e, w1)
      | (Inr chunk_bytes_batch, w1) \<Rightarrow>
          decode_batched p
            (map (\<lambda>(chunk_bytes, (store_path, chunk_spec, chunk_selection, out_selection)).
                    (chunk_bytes, chunk_spec)) (zip chunk_bytes_batch batch_info)) w1)"

subsection \<open>write_batched: merging\<close>

text \<open>
  \<open>_merge_chunk_array\<close> works on array objects: \<open>copy()\<close> makes a new object and the
  assignment \<open>chunk_array[chunk_selection] = ...\<close> changes an object in place. The objects
  live in a heap, addressed by position; \<open>np.empty\<close> and \<open>copy\<close> allocate at the end.
\<close>

type_synonym heap = "ndarray list"

definition alloc :: "heap \<Rightarrow> ndarray \<Rightarrow> nat \<times> heap" where
  "alloc h a = (length h, h @ [a])"

definition merge_chunk_array ::
    "heap \<Rightarrow> nat option \<Rightarrow> nat \<Rightarrow> array_spec \<Rightarrow> selection \<Rightarrow> (error + nat) \<times> heap" where
  "merge_chunk_array h existing_chunk_array new_chunk_array_slice chunk_spec chunk_selection =
     (if is_total_slice chunk_selection (shape chunk_spec) then (Inr new_chunk_array_slice, h)
      else
        (case (case existing_chunk_array of
                 None \<Rightarrow> alloc h (np_full (shape chunk_spec) (fill_value chunk_spec))
               | Some existing \<Rightarrow> alloc h (h ! existing)) of
           (chunk_array, h1) \<Rightarrow>
             (case np_setitem (h1 ! chunk_array) chunk_selection (h1 ! new_chunk_array_slice) of
                Inl e \<Rightarrow> (Inl e, h1)
              | Inr a \<Rightarrow> (Inr chunk_array, h1[chunk_array := a]))))"

text \<open>
  The merged array as a value: \<open>_merge_chunk_array\<close> run on a heap that holds its two
  array arguments, the new slice at 0 and the existing array (when there is one) at 1.
\<close>

definition merged_chunk ::
    "ndarray option \<Rightarrow> ndarray \<Rightarrow> array_spec \<Rightarrow> selection \<Rightarrow> error + ndarray" where
  "merged_chunk existing new_slice chunk_spec chunk_selection =
     (case (case existing of
              None \<Rightarrow> merge_chunk_array [new_slice] None 0 chunk_spec chunk_selection
            | Some a \<Rightarrow> merge_chunk_array [new_slice, a] (Some 1) 0 chunk_spec chunk_selection) of
        (Inl e, h) \<Rightarrow> Inl e
      | (Inr r, h) \<Rightarrow> Inr (h ! r))"

definition merge_item :: "pyvalue \<Rightarrow> ndarray option \<times> batch_item \<Rightarrow> error + ndarray" where
  "merge_item val x =
     (case x of (chunk_array, (store_path, chunk_spec, chunk_selection, out_selection)) \<Rightarrow>
        (case value_getitem val out_selection of
           Inl e \<Rightarrow> Inl e
         | Inr new_slice \<Rightarrow> merged_chunk chunk_array new_slice chunk_spec chunk_selection))"

definition merge_batch ::
    "ndarray option list \<Rightarrow> batch_item list \<Rightarrow> pyvalue \<Rightarrow> error + ndarray list" where
  "merge_batch chunk_array_batch batch_info val =
     collect (map (merge_item val) (zip chunk_array_batch batch_info))"

subsection \<open>write_batched: fill-value elision, encoding, writing the keys\<close>

definition elide_fill :: "ndarray list \<Rightarrow> batch_item list \<Rightarrow> ndarray option list" where
  "elide_fill chunk_array_batch batch_info =
     map (\<lambda>(chunk_array, (store_path, chunk_spec, chunk_selection, out_selection)).
            if np_all_eq chunk_array (fill_value chunk_spec) then None else Some chunk_array)
       (zip chunk_array_batch batch_info)"

definition write_key :: "key \<times> bytes option \<Rightarrow> world \<Rightarrow> (error + unit) \<times> world" where
  "write_key x w =
     (case x of (store_path, chunk_bytes) \<Rightarrow>
        (case chunk_bytes of
           None \<Rightarrow> store_delete store_path w
         | Some b \<Rightarrow> store_set store_path b w))"

definition partial_items ::
    "batch_item list \<Rightarrow> pyvalue \<Rightarrow> error + (key \<times> ndarray \<times> selection \<times> array_spec) list" where
  "partial_items batch_info val =
     collect (map (\<lambda>(store_path, chunk_spec, chunk_selection, out_selection).
                     case value_getitem val out_selection of
                       Inl e \<Rightarrow> Inl e
                     | Inr v \<Rightarrow> Inr (store_path, v, chunk_selection, chunk_spec)) batch_info)"

definition write_batched ::
    "pipeline \<Rightarrow> batch_item list \<Rightarrow> pyvalue \<Rightarrow> world \<Rightarrow> (error + unit) \<times> world" where
  "write_batched p batch_info val w =
     (if supports_partial_encode p then
        (case partial_items batch_info val of
           Inl e \<Rightarrow> (Inl e, w)
         | Inr items \<Rightarrow> encode_partial_batched p items w)
      else
        (case read_existing p batch_info w of
           (Inl e, w1) \<Rightarrow> (Inl e, w1)
         | (Inr existing, w1) \<Rightarrow>
        (case merge_batch existing batch_info val of
           Inl e \<Rightarrow> (Inl e, w1)
         | Inr merged \<Rightarrow>
        (case encode_batched p
                (map (\<lambda>(chunk_array, (store_path, chunk_spec, chunk_selection, out_selection)).
                        (chunk_array, chunk_spec))
                   (zip (elide_fill merged batch_info) batch_info)) w1 of
           (Inl e, w2) \<Rightarrow> (Inl e, w2)
         | (Inr chunk_bytes_batch, w2) \<Rightarrow>
        (case concurrent_map
                (map (\<lambda>(chunk_bytes, (store_path, chunk_spec, chunk_selection, out_selection)).
                        (store_path, chunk_bytes)) (zip chunk_bytes_batch batch_info))
                write_key w2 of
           (Inl e, w3) \<Rightarrow> (Inl e, w3)
         | (Inr done, w3) \<Rightarrow> (Inr (), w3))))))"

section \<open>array.py\<close>

subsection \<open>Collaborators of the array engine\<close>

text \<open>
  Modelled from the spec: the chunk key encodings of the missing
  \<open>zarr.v3.chunk_key_encodings\<close>. \<open>default\<close> is \<open>"c" sep i0 sep i1 ...\<close> (a scalar array gives
  \<open>"c"\<close>), \<open>v2\<close> is \<open>i0 sep i1 ...\<close> (a scalar array gives \<open>"0"\<close>); the indices are written in
  decimal.
\<close>

datatype chunk_key_encoding = DefaultChunkKeyEncoding string | V2ChunkKeyEncoding string

definition digit_char :: "nat \<Rightarrow> char" where
  "digit_char d = ''0123456789'' ! d"

function str_nat :: "nat \<Rightarrow> string" where
  "str_nat n = (if n < 10 then [digit_char n] else str_nat (n div 10) @ [digit_char (n mod 10)])"
  by pat_completeness auto
termination
  by (relation "measure (\<lambda>n. n)") auto

declare str_nat.simps [simp del]

fun join :: "string \<Rightarrow> string list \<Rightarrow> string" where
  "join sep [] = []"
| "join sep [x] = x"
| "join sep (x # y # ys) = x @ sep @ join sep (y # ys)"

fun encode_chunk_key :: "chunk_key_encoding \<Rightarrow> nat list \<Rightarrow> key" where
  "encode_chunk_key (DefaultChunkKeyEncoding separator) chunk_coords =
     join separator (''c'' # map str_nat chunk_coords)"
| "encode_chunk_key (V2ChunkKeyEncoding separator) chunk_coords =
     (let chunk_identifier = join separator (map str_nat chunk_coords)
      in if chunk_identifier = [] then ''0'' else chunk_identifier)"

text \<open>
  Modelled from the spec: composition of a store path with a relative key (the missing
  \<open>StorePath./\<close>) appends the key as a segment.
\<close>

definition path_join :: "key \<Rightarrow> key \<Rightarrow> key" where
  "path_join root k = (if root = [] then k else root @ ''/'' @ k)"

definition ZARR_JSON :: key where
  "ZARR_JSON = ''zarr.json''"

text \<open>
  Modelled from the spec: \<open>all_chunk_coords\<close> of the missing \<open>zarr.v3.indexing\<close> enumerates
  every chunk coordinate, each component below the ceiling of \<open>shape_i / chunk_shape_i\<close>.
  Chunk shapes are positive in the data model.
\<close>

definition ceildiv :: "nat \<Rightarrow> nat \<Rightarrow> nat" where
  "ceildiv a b = (a + b - 1) div b"

definition all_chunk_coords :: "nat list \<Rightarrow> nat list \<Rightarrow> nat list list" where
  "all_chunk_coords shp chunk_shape =
     product_lists (map (\<lambda>(s, c). [0..<ceildiv s c]) (zip shp chunk_shape))"

text \<open>
  Modelled from the spec: \<open>BasicIndexer\<close> of the missing \<open>zarr.v3.indexing\<close>, for selections
  that are one range per dimension. A range is clipped to the extent. For every chunk
  \<open>k\<close> a range meets, the chunk selection is
  \<open>[max(start, k C) - k C, min(stop, (k+1) C) - k C)\<close> and the out selection
  \<open>[max(start, k C) - start, min(stop, (k+1) C) - start)\<close>; the items are the Cartesian
  product over the dimensions and the shape is \<open>stop - start\<close> per dimension. A selection
  whose arity differs from the shape's raises \<open>IndexError\<close>.
\<close>

record basic_indexer =
  indexer_shape :: "nat list"
  projections :: "(nat list \<times> selection \<times> selection) list"

definition dim_projections :: "slice \<Rightarrow> nat \<Rightarrow> (nat \<times> slice \<times> slice) list" where
  "dim_projections sl c =
     (case sl of (start, stop) \<Rightarrow>
        map (\<lambda>k. (k,
                  (max start (k * c) - k * c, min stop ((k + 1) * c) - k * c),
                  (max start (k * c) - start, min stop ((k + 1) * c) - start)))
          (filter (\<lambda>k. max start (k * c) < min stop ((k + 1) * c))
             [start div c..<ceildiv stop c]))"

definition BasicIndexer :: "selection \<Rightarrow> nat list \<Rightarrow> nat list \<Rightarrow> error + basic_indexer" where
  "BasicIndexer sel shp chunk_shape =
     (if length sel \<noteq> length shp then Inl IndexError
      else
        (let ranges = map (\<lambda>((start, stop), dim_len). (min start dim_len, min stop dim_len))
                        (zip sel shp)
         in Inr \<lparr>indexer_shape = map (\<lambda>(start, stop). stop - start) ranges,
                 projections =
                   map (\<lambda>combo. (map fst combo, map (\<lambda>x. fst (snd x)) combo,
                                  map (\<lambda>x. snd (snd x)) combo))
                     (product_lists
                        (map (\<lambda>(r, c). dim_projections r c) (zip ranges chunk_shape)))\<rparr>))"

text \<open>
  \<open>ArrayMetadata\<close> (missing \<open>zarr.v3.metadata\<close>) with the fields the engine reads. A chunk
  grid is regular or something else; \<open>get_chunk_spec\<close> gives every chunk the metadata's
  chunk shape (modelled from the spec: trailing chunks are not truncated).
\<close>

datatype chunk_grid = RegularChunkGrid "nat list" | OtherChunkGrid

record array_metadata =
  shape_md :: "nat list"
  data_type :: string
  chunk_grid :: chunk_grid
  chunk_key_encoding :: chunk_key_encoding
  fill_value_md :: int
  codecs :: pipeline
  attributes :: "(string \<times> string) list"

definition get_chunk_spec :: "array_metadata \<Rightarrow> nat list \<Rightarrow> array_spec" where
  "get_chunk_spec md chunk_coords =
     \<lparr>shape = (case chunk_grid md of RegularChunkGrid chunk_shape \<Rightarrow> chunk_shape
                                    | OtherChunkGrid \<Rightarrow> []),
      dtype = data_type md,
      fill_value = fill_value_md md\<rparr>"

subsection \<open>AsyncArray\<close>

text \<open>
  An \<open>AsyncArray\<close> is a frozen dataclass: a value. The runtime configuration (memory order,
  concurrency limit, event loop) does not affect the results and is left out.
  \<open>to_bytes\<close>, the JSON serialisation of the metadata, is a parameter of \<open>resize\<close>.
\<close>

record async_array =
  metadata :: array_metadata
  store_path :: key

definition batch_of :: "async_array \<Rightarrow> basic_indexer \<Rightarrow> batch_item list" where
  "batch_of self indexer =
     map (\<lambda>(chunk_coords, chunk_selection, out_selection).
            (path_join (store_path self)
               (encode_chunk_key (chunk_key_encoding (metadata self)) chunk_coords),
             get_chunk_spec (metadata self) chunk_coords,
             chunk_selection,
             out_selection))
       (projections indexer)"


definition setitem ::
    "async_array \<Rightarrow> selection \<Rightarrow> pyvalue \<Rightarrow> world \<Rightarrow> (error + unit) \<times> world" where
  "setitem self sel val w =
     (case chunk_grid (metadata self) of
        OtherChunkGrid \<Rightarrow> (Inl AssertionError, w)
      | RegularChunkGrid chunk_shape \<Rightarrow>
          (case BasicIndexer sel (shape_md (metadata self)) chunk_shape of
             Inl e \<Rightarrow> (Inl e, w)
           | Inr indexer \<Rightarrow>
               (let sel_shape = indexer_shape indexer
                in case (case val of
                           Scalar v \<Rightarrow> Inr val
                         | Array a \<Rightarrow>
                             if np_shape a = sel_shape then Inr val else Inl AssertionError) of
                     Inl e \<Rightarrow> (Inl e, w)
                   | Inr val' \<Rightarrow>
                       write_batched (codecs (metadata self)) (batch_of self indexer) val' w)))"

definition delete_key :: "async_array \<Rightarrow> key \<Rightarrow> world \<Rightarrow> (error + unit) \<times> world" where
  "delete_key self k w = store_delete (path_join (store_path self) k) w"

text \<open>
  \<open>resize\<close>. Python's sets have no order of their own; the model enumerates
  \<open>old_chunk_coords.difference(new_chunk_coords)\<close> in the order of \<open>all_chunk_coords\<close>.
\<close>

definition resize ::
    "(array_metadata \<Rightarrow> bytes) \<Rightarrow> async_array \<Rightarrow> nat list \<Rightarrow> bool \<Rightarrow> world
      \<Rightarrow> (error + async_array) \<times> world" where
  "resize to_bytes self new_shape delete_outside_chunks w =
     (if length new_shape \<noteq> length (shape_md (metadata self)) then (Inl AssertionError, w)
      else
        (let new_metadata = (metadata self)\<lparr>shape_md := new_shape\<rparr>
         in case chunk_grid (metadata self) of
              OtherChunkGrid \<Rightarrow> (Inl AssertionError, w)
            | RegularChunkGrid chunk_shape \<Rightarrow>
                (let enc = chunk_key_encoding (metadata self);
                     old_chunk_coords =
                       remdups (all_chunk_coords (shape_md (metadata self)) chunk_shape);
                     new_chunk_coords = remdups (all_chunk_coords new_shape chunk_shape)
                 in case (if delete_outside_chunks then
                            concurrent_map
                              (map (encode_chunk_key enc)
                                 (filter (\<lambda>c. c \<notin> set new_chunk_coords) old_chunk_coords))
                              (delete_key self) w
                          else (Inr [], w)) of
                      (Inl e, w1) \<Rightarrow> (Inl e, w1)
                    | (Inr deleted, w1) \<Rightarrow>
                        (case store_set (path_join (store_path self) ZARR_JSON)
                                (to_bytes new_metadata) w1 of
                           (Inl e, w2) \<Rightarrow> (Inl e, w2)
                         | (Inr u, w2) \<Rightarrow> (Inr (self\<lparr>metadata := new_metadata\<rparr>), w2)))))"

section \<open>Describing the store operations of a batch\<close>

text \<open>
  \<open>wanted_keys\<close> lists the keys of a batch of optional store paths that are present.
\<close>

definition wanted_keys :: "key option list \<Rightarrow> key list" where
  "wanted_keys kos = concat (map (\<lambda>ko. case ko of None \<Rightarrow> [] | Some k \<Rightarrow> [k]) kos)"


definition apply_writes :: "kvstore \<Rightarrow> (key \<times> bytes option) list \<Rightarrow> kvstore" where
  "apply_writes s xs = foldl (\<lambda>s x. s(fst x := snd x)) s xs"



text \<open>The components of a batch item.\<close>

definition item_key :: "batch_item \<Rightarrow> key" where
  "item_key item = fst item"

definition item_spec :: "batch_item \<Rightarrow> array_spec" where
  "item_spec item = fst (snd item)"

definition item_chunk_selection :: "batch_item \<Rightarrow> selection" where
  "item_chunk_selection item = fst (snd (snd item))"

definition item_out_selection :: "batch_item \<Rightarrow> selection" where
  "item_out_selection item = snd (snd (snd item))"

definition item_total :: "batch_item \<Rightarrow> bool" where
  "item_total item = is_total_slice (item_chunk_selection item) (shape (item_spec item))"

text \<open>
  \<open>fetched_keys\<close> are the store paths of the items whose chunk selection is not a total
  slice, in batch order; \<open>existing_bytes\<close> is what the read phase of \<open>write_batched\<close> hands
  to \<open>decode_batched\<close> for an item.
\<close>

definition fetched_keys :: "batch_item list \<Rightarrow> key list" where
  "fetched_keys batch = map item_key (filter (\<lambda>item. \<not> item_total item) batch)"

definition existing_bytes :: "kvstore \<Rightarrow> batch_item \<Rightarrow> bytes option" where
  "existing_bytes s item = (if item_total item then None else s (item_key item))"

section \<open>The chunk keys of an array\<close>

text \<open>
  \<open>chunk_key\<close> is the store key of a chunk coordinate, as \<open>getitem\<close>, \<open>setitem\<close> and \<open>resize\<close>
  compose it: \<open>store_path / chunk_key_encoding.encode_chunk_key(chunk_coords)\<close>.
  \<open>chunk_keys_present\<close> are the keys bound in the store that are the key of some chunk
  coordinate of the array.
\<close>

definition chunk_key :: "async_array \<Rightarrow> nat list \<Rightarrow> key" where
  "chunk_key self chunk_coords =
     path_join (store_path self)
       (encode_chunk_key (chunk_key_encoding (metadata self)) chunk_coords)"

definition chunk_keys_present :: "async_array \<Rightarrow> world \<Rightarrow> key set" where
  "chunk_keys_present self w = {k \<in> dom (store w). \<exists>chunk_coords. k = chunk_key self chunk_coords}"

section \<open>Concrete codecs and inputs\<close>

text \<open>
  Instances of the codec contracts, to run the pipeline on: an array-array codec that adds
  a constant to every element (and to the fill value of the spec), an array-bytes codec
  that lays the elements out in row-major order, and a bytes-bytes codec that reverses the
  byte string.
\<close>

fun np_map :: "(int \<Rightarrow> int) \<Rightarrow> ndarray \<Rightarrow> ndarray" where
  "np_map f (Elem x) = Elem (f x)"
| "np_map f (Arr xs) = Arr (map (np_map f) xs)"

fun np_flatten :: "ndarray \<Rightarrow> int list" where
  "np_flatten (Elem x) = [x]"
| "np_flatten (Arr xs) = concat (map np_flatten xs)"

fun np_reshape :: "nat list \<Rightarrow> int list \<Rightarrow> ndarray" where
  "np_reshape [] xs = (case xs of [] \<Rightarrow> Elem 0 | x # _ \<Rightarrow> Elem x)"
| "np_reshape (n # ns) xs =
     Arr (map (\<lambda>i. np_reshape ns (take (prod_list ns) (drop (i * prod_list ns) xs))) [0..<n])"

definition offset_codec :: "int \<Rightarrow> aa_codec" where
  "offset_codec k =
     \<lparr>resolve_metadata = (\<lambda>s. s\<lparr>fill_value := fill_value s + k\<rparr>),
      encode_batch = (\<lambda>xs. Inr (map (\<lambda>x. map_option (np_map (\<lambda>v. v + k)) (fst x)) xs)),
      decode_batch = (\<lambda>xs. Inr (map (\<lambda>x. map_option (np_map (\<lambda>v. v - k)) (fst x)) xs))\<rparr>"

definition bytes_codec :: ab_codec where
  "bytes_codec =
     \<lparr>resolve_metadata = (\<lambda>s. s),
      encode_batch = (\<lambda>xs. Inr (map (\<lambda>x. map_option (\<lambda>a. map nat (np_flatten a)) (fst x)) xs)),
      decode_batch =
        (\<lambda>xs. Inr (map (\<lambda>x. map_option (\<lambda>b. np_reshape (shape (snd x)) (map int b)) (fst x)) xs)),
      decode_partial_mixin = None,
      encode_partial_mixin = None\<rparr>"

definition reverse_codec :: bb_codec where
  "reverse_codec =
     \<lparr>resolve_metadata = (\<lambda>s. s),
      encode_batch = (\<lambda>xs. Inr (map (\<lambda>x. map_option rev (fst x)) xs)),
      decode_batch = (\<lambda>xs. Inr (map (\<lambda>x. map_option rev (fst x)) xs))\<rparr>"

definition example_pipeline :: pipeline where
  "example_pipeline =
     \<lparr>array_array_codecs = [offset_codec 1, offset_codec 2],
      array_bytes_codec = bytes_codec,
      bytes_bytes_codecs = [reverse_codec]\<rparr>"

definition example_spec :: array_spec where
  "example_spec = \<lparr>shape = [2], dtype = ''int32'', fill_value = 0\<rparr>"

definition empty_world :: world where
  "empty_world = \<lparr>store = Map.empty, trace = []\<rparr>"

text \<open>
  The default codec list \<open>[BytesCodec()]\<close>, and a one-dimensional array of extent 4 in
  chunks of 2 with fill value 0, stored under the prefix \<open>a\<close>.
\<close>

definition default_pipeline :: pipeline where
  "default_pipeline =
     \<lparr>array_array_codecs = [], array_bytes_codec = bytes_codec, bytes_bytes_codecs = []\<rparr>"

definition example_metadata :: array_metadata where
  "example_metadata =
     \<lparr>shape_md = [4], data_type = ''int32'', chunk_grid = RegularChunkGrid [2],
      chunk_key_encoding = DefaultChunkKeyEncoding ''/'', fill_value_md = 0,
      codecs = default_pipeline, attributes = []\<rparr>"

definition example_array :: async_array where
  "example_array = \<lparr>metadata = example_metadata, store_path = ''a''\<rparr>"

text \<open>
  An array-bytes codec with both partial mixins: the partial decoder reads the stored
  chunk and slices it, the partial encoder reads the stored chunk (or starts from the fill
  value), assigns the sub-region and stores the result. It performs no fill-value check.
\<close>

definition partial_decode_one :: "kvstore \<Rightarrow> key \<times> selection \<times> array_spec \<Rightarrow> ndarray option" where
  "partial_decode_one s x =
     (case x of (k, sel, spec) \<Rightarrow>
        (case s k of
           None \<Rightarrow> None
         | Some b \<Rightarrow>
             (case np_getitem (np_reshape (shape spec) (map int b)) sel of
                Inl e \<Rightarrow> None
              | Inr a \<Rightarrow> Some a)))"

definition partial_encode_one :: "kvstore \<Rightarrow> key \<times> ndarray \<times> selection \<times> array_spec \<Rightarrow> kvstore" where
  "partial_encode_one s x =
     (case x of (k, v, sel, spec) \<Rightarrow>
        (case np_setitem
                (case s k of
                   None \<Rightarrow> np_full (shape spec) (fill_value spec)
                 | Some b \<Rightarrow> np_reshape (shape spec) (map int b)) sel v of
           Inl e \<Rightarrow> s
         | Inr a \<Rightarrow> s(k \<mapsto> map nat (np_flatten a))))"

definition partial_bytes_codec :: ab_codec where
  "partial_bytes_codec =
     bytes_codec
       \<lparr>decode_partial_mixin := Some (\<lambda>items s. (Inr (map (partial_decode_one s) items), s)),
        encode_partial_mixin := Some (\<lambda>items s. (Inr (), foldl partial_encode_one s items))\<rparr>"

definition partial_pipeline :: pipeline where
  "partial_pipeline =
     \<lparr>array_array_codecs = [], array_bytes_codec = partial_bytes_codec, bytes_bytes_codecs = []\<rparr>"


definition example_batch :: "batch_item list" where
  "example_batch =
     [(''a/c/0'', \<lparr>shape = [2], dtype = ''int32'', fill_value = 0\<rparr>, [(0, 2)], [(0, 2)]),
      (''a/c/1'', \<lparr>shape = [2], dtype = ''int32'', fill_value = 0\<rparr>, [(0, 2)], [(2, 4)])]"

definition example_world :: world where
  "example_world = \<lparr>store = [''a/c/0'' \<mapsto> [1, 2]], trace = []\<rparr>"

text \<open>
  A batch whose first item covers its chunk and whose second item covers only the first
  element of its chunk.
\<close>

definition mixed_batch :: "batch_item list" where
  "mixed_batch =
     [(''a/c/0'', \<lparr>shape = [2], dtype = ''int32'', fill_value = 0\<rparr>, [(0, 2)], [(0, 2)]),
      (''a/c/1'', \<lparr>shape = [2], dtype = ''int32'', fill_value = 0\<rparr>, [(0, 1)], [(2, 3)])]"

definition full_world :: world where
  "full_world = \<lparr>store = [''a/c/0'' \<mapsto> [1, 2], ''a/c/1'' \<mapsto> [3, 4]], trace = []\<rparr>"


text \<open>
  A stand-in for \<open>ArrayMetadata.to_bytes\<close> that writes the shape, and the array and store
  that \<open>resize([2], delete_outside_chunks=False)\<close> leaves behind from \<open>example_array\<close> over
  \<open>full_world\<close>: the extent is 2 and the chunk \<open>a/c/1\<close> is still stored.
\<close>

definition shape_bytes :: "array_metadata \<Rightarrow> bytes" where
  "shape_bytes md = shape_md md"

definition kept_array :: async_array where
  "kept_array = example_array\<lparr>metadata := example_metadata\<lparr>shape_md := [2]\<rparr>\<rparr>"

definition kept_world :: world where
  "kept_world = snd (resize shape_bytes example_array [2] False full_world)"

section \<open>What the codec loops do to the world\<close>

lemma trace_emit: "trace (emit e w) = trace w @ [e]" and store_emit: "store (emit e w) = store w"
  by (simp_all add: emit_def)

lemma new_events_app: "trace w' = trace w @ evs \<Longrightarrow> new_events w w' = evs"
  by (simp add: new_events_def)

lemma calls_of_append: "calls_of (xs @ ys) = calls_of xs @ calls_of ys"
  by (induction xs rule: calls_of.induct) auto

lemma codec_calls_append: "codec_calls (xs @ ys) = codec_calls xs @ codec_calls ys"
  by (induction xs rule: codec_calls.induct) auto

lemma store_ops_append: "store_ops (xs @ ys) = store_ops xs @ store_ops ys"
  by (simp add: store_ops_def)

lemma with_resolved_loop_codecs: "map fst (fst (with_resolved_loop cs s)) = cs"
  by (induction cs arbitrary: s) (auto simp: case_prod_unfold)

lemma with_resolved_loop_lengths:
  "(c, ss) \<in> set (fst (with_resolved_loop cs s)) \<Longrightarrow> length ss = length s"
  by (induction cs arbitrary: s) (auto simp: case_prod_unfold)


lemma encode_loop_specs:
  assumes "\<forall>c \<in> set cs. keeps_length c" "length b = length s"
  shows "\<exists>evs. trace (snd (encode_loop mk cs b s w)) = trace w @ evs
      \<and> prefix (codec_calls evs) (map (\<lambda>(c, ss). (Enc (mk c), ss)) (fst (with_resolved_loop cs s)))
      \<and> (\<forall>b' s'. fst (encode_loop mk cs b s w) = Inr (b', s') \<longrightarrow>
            codec_calls evs = map (\<lambda>(c, ss). (Enc (mk c), ss)) (fst (with_resolved_loop cs s))
            \<and> s' = snd (with_resolved_loop cs s) \<and> length b' = length s')"
  using assms
proof (induction cs arbitrary: b s w)
  case Nil
  then show ?case by simp
next
  case (Cons c cs)
  have fed: "map snd (zip b s) = s" using Cons.prems by simp
  show ?case
  proof (cases "encode_batch c (zip b s)")
    case (Inl e)
    then show ?thesis using fed by (simp add: trace_emit case_prod_unfold)
  next
    case (Inr b')
    let ?s1 = "resolve_batched c s"
    let ?w1 = "emit (CodecCall (Enc (mk c)) (map snd (zip b s))) w"
    let ?r = "encode_loop mk cs b' ?s1 ?w1"
    have len: "length b' = length ?s1"
      using Inr Cons.prems by (auto simp: keeps_length_def resolve_batched_def)
    from Cons.IH[of b' ?s1 ?w1] Cons.prems len obtain evs where
      evs: "trace (snd ?r) = trace ?w1 @ evs"
        "prefix (codec_calls evs) (map (\<lambda>(c, ss). (Enc (mk c), ss)) (fst (with_resolved_loop cs ?s1)))"
        "\<forall>b'' s'. fst ?r = Inr (b'', s') \<longrightarrow>
            codec_calls evs = map (\<lambda>(c, ss). (Enc (mk c), ss)) (fst (with_resolved_loop cs ?s1))
            \<and> s' = snd (with_resolved_loop cs ?s1) \<and> length b'' = length s'"
      by auto
    show ?thesis
      apply (rule exI[of _ "CodecCall (Enc (mk c)) (map snd (zip b s)) # evs"])
      using Inr evs fed
      by (simp add: trace_emit Let_def resolve_batched_def case_prod_unfold)
  qed
qed


lemma decode_loop_effect:
  "\<exists>evs. trace (snd (decode_loop mk cs b w)) = trace w @ evs
      \<and> store (snd (decode_loop mk cs b w)) = store w
      \<and> store_ops evs = []
      \<and> prefix (calls_of evs) (map (\<lambda>x. Dec (mk (fst x))) cs)
      \<and> (\<forall>r. fst (decode_loop mk cs b w) = Inr r \<longrightarrow> calls_of evs = map (\<lambda>x. Dec (mk (fst x))) cs)"
proof (induction cs arbitrary: b w)
  case Nil
  then show ?case by (simp add: store_ops_def)
next
  case (Cons cs1 cs)
  obtain c ss where cs1: "cs1 = (c, ss)" by (cases cs1)
  show ?case
  proof (cases "decode_batch c (zip b ss)")
    case (Inl e)
    then show ?thesis by (simp add: cs1 trace_emit store_emit store_ops_def)
  next
    case (Inr b')
    let ?w1 = "emit (CodecCall (Dec (mk c)) (map snd (zip b ss))) w"
    let ?r = "decode_loop mk cs b' ?w1"
    from Cons.IH[of b' ?w1] obtain evs where
      evs: "trace (snd ?r) = trace ?w1 @ evs" "store (snd ?r) = store ?w1"
        "store_ops evs = []"
        "prefix (calls_of evs) (map (\<lambda>x. Dec (mk (fst x))) cs)"
        "\<forall>r. fst ?r = Inr r \<longrightarrow> calls_of evs = map (\<lambda>x. Dec (mk (fst x))) cs"
      by blast
    show ?thesis
      apply (rule exI[of _ "CodecCall (Dec (mk c)) (map snd (zip b ss)) # evs"])
      using Inr evs by (simp add: cs1 trace_emit store_emit Let_def store_ops_def)
  qed
qed

lemma decode_loop_specs:
  assumes "\<forall>x \<in> set cs. keeps_length (fst x) \<and> length (snd x) = length b"
  shows "\<exists>evs. trace (snd (decode_loop mk cs b w)) = trace w @ evs
      \<and> prefix (codec_calls evs) (map (\<lambda>x. (Dec (mk (fst x)), snd x)) cs)
      \<and> (\<forall>b'. fst (decode_loop mk cs b w) = Inr b' \<longrightarrow>
            codec_calls evs = map (\<lambda>x. (Dec (mk (fst x)), snd x)) cs \<and> length b' = length b)"
  using assms
proof (induction cs arbitrary: b w)
  case Nil
  then show ?case by simp
next
  case (Cons cs1 cs)
  obtain c ss where cs1: "cs1 = (c, ss)" by (cases cs1)
  have fed: "map snd (zip b ss) = ss" using Cons.prems by (simp add: cs1)
  show ?case
  proof (cases "decode_batch c (zip b ss)")
    case (Inl e)
    then show ?thesis using fed by (simp add: cs1 trace_emit)
  next
    case (Inr b')
    let ?w1 = "emit (CodecCall (Dec (mk c)) (map snd (zip b ss))) w"
    let ?r = "decode_loop mk cs b' ?w1"
    have len: "length b' = length b"
      using Inr Cons.prems by (auto simp: keeps_length_def cs1)
    from Cons.IH[of b' ?w1] Cons.prems len obtain evs where
      evs: "trace (snd ?r) = trace ?w1 @ evs"
        "prefix (codec_calls evs) (map (\<lambda>x. (Dec (mk (fst x)), snd x)) cs)"
        "\<forall>b''. fst ?r = Inr b'' \<longrightarrow>
            codec_calls evs = map (\<lambda>x. (Dec (mk (fst x)), snd x)) cs \<and> length b'' = length b'"
      by auto
    show ?thesis
      apply (rule exI[of _ "CodecCall (Dec (mk c)) (map snd (zip b ss)) # evs"])
      using Inr evs fed len
      by (simp add: cs1 trace_emit Let_def)
  qed
qed




lemma codecs_with_resolved_unfold:
  "codecs_with_resolved_metadata_batched p s =
     (fst (with_resolved_loop (array_array_codecs p) s),
      (array_bytes_codec p, snd (with_resolved_loop (array_array_codecs p) s)),
      fst (with_resolved_loop (bytes_bytes_codecs p)
             (map (resolve_metadata (array_bytes_codec p))
                (snd (with_resolved_loop (array_array_codecs p) s)))))"
  by (simp add: codecs_with_resolved_metadata_batched_def Let_def case_prod_unfold)

lemma decode_batched_effect:
  "\<exists>evs. trace (snd (decode_batched p xs w)) = trace w @ evs
      \<and> store (snd (decode_batched p xs w)) = store w
      \<and> store_ops evs = []
      \<and> prefix (calls_of evs) (map Dec (rev (stages p)))
      \<and> (\<forall>r. fst (decode_batched p xs w) = Inr r \<longrightarrow> calls_of evs = map Dec (rev (stages p)))"
proof -
  let ?aa = "map (\<lambda>c. Dec (AA c)) (rev (array_array_codecs p))"
  let ?bb = "map (\<lambda>c. Dec (BB c)) (rev (bytes_bytes_codecs p))"
  let ?ab = "array_bytes_codec p"
  have full: "map Dec (rev (stages p)) = ?bb @ [Dec (AB ?ab)] @ ?aa"
    by (simp add: stages_def rev_map)
  define aaw where "aaw = fst (with_resolved_loop (array_array_codecs p) (map snd xs))"
  define sab where "sab = snd (with_resolved_loop (array_array_codecs p) (map snd xs))"
  define bbw where
    "bbw = fst (with_resolved_loop (bytes_bytes_codecs p) (map (resolve_metadata ?ab) sab))"
  define abc where "abc = ?ab"
  have cw: "codecs_with_resolved_metadata_batched p (map snd xs) = (aaw, (abc, sab), bbw)"
    by (simp add: codecs_with_resolved_unfold aaw_def sab_def bbw_def abc_def)
  have aaw: "map fst aaw = array_array_codecs p" and bbw: "map fst bbw = bytes_bytes_codecs p"
    and abc: "abc = ?ab"
    by (simp_all add: aaw_def bbw_def abc_def with_resolved_loop_codecs)
  have ebb: "map (\<lambda>x. Dec (BB (fst x))) (rev bbw) = ?bb"
    unfolding bbw[symmetric] by (simp add: rev_map o_def)
  have eaa: "map (\<lambda>x. Dec (AA (fst x))) (rev aaw) = ?aa"
    unfolding aaw[symmetric] by (simp add: rev_map o_def)
  obtain r1 w1 where l1: "decode_loop BB (rev bbw) (map fst xs) w = (r1, w1)"
    by fastforce
  from decode_loop_effect[of BB "rev bbw" "map fst xs" w] l1 ebb
  obtain evs1 where e1: "trace w1 = trace w @ evs1" "store w1 = store w" "store_ops evs1 = []"
      "prefix (calls_of evs1) ?bb" "\<forall>r. r1 = Inr r \<longrightarrow> calls_of evs1 = ?bb"
    by auto
  show ?thesis
  proof (cases r1)
    case (Inl e)
    have "decode_batched p xs w = (Inl e, w1)"
      using l1 Inl cw by (simp add: decode_batched_def unzip2_def)
    then show ?thesis using e1 full by (auto intro: prefix_prefix)
  next
    case (Inr b1)
    let ?ev = "CodecCall (Dec (AB ?ab)) (map snd (zip b1 sab))"
    let ?w2 = "emit ?ev w1"
    have c1: "calls_of evs1 = ?bb" using e1 Inr by simp
    show ?thesis
    proof (cases "decode_batch ?ab (zip b1 sab)")
      case (Inl e)
      have "decode_batched p xs w = (Inl e, ?w2)"
        using l1 Inr Inl cw abc by (simp add: decode_batched_def unzip2_def Let_def)
      then show ?thesis
        apply (intro exI[of _ "evs1 @ [?ev]"])
        using e1 c1 full
        by (simp add: trace_emit store_emit store_ops_def calls_of_append)
    next
      case ab: (Inr b2)
      obtain r3 w3 where l3: "decode_loop AA (rev aaw) b2 ?w2 = (r3, w3)"
        by fastforce
      from decode_loop_effect[of AA "rev aaw" b2 ?w2] l3 eaa
      obtain evs3 where e3: "trace w3 = trace ?w2 @ evs3" "store w3 = store ?w2"
          "store_ops evs3 = []" "prefix (calls_of evs3) ?aa" "\<forall>r. r3 = Inr r \<longrightarrow> calls_of evs3 = ?aa"
        by auto
      have eq: "decode_batched p xs w = (r3, w3)"
        using l1 Inr ab l3 cw abc
        by (simp add: decode_batched_def unzip2_def Let_def)
      show ?thesis
        apply (intro exI[of _ "evs1 @ [?ev] @ evs3"])
        using e1 c1 e3 full eq
        by (auto simp: trace_emit store_emit store_ops_def calls_of_append)
    qed
  qed
qed


lemma with_resolved_loop_final_length: "length (snd (with_resolved_loop cs s)) = length s"
  by (induction cs arbitrary: s) (auto simp: case_prod_unfold)

lemma with_resolved_loop_member:
  "x \<in> set (fst (with_resolved_loop cs s)) \<Longrightarrow> fst x \<in> set cs \<and> length (snd x) = length s"
  by (induction cs arbitrary: s) (auto simp: case_prod_unfold)

lemma stage_specs_unfold:
  "stage_specs p s =
     map (\<lambda>x. (AA (fst x), snd x)) (fst (with_resolved_loop (array_array_codecs p) s))
     @ [(AB (array_bytes_codec p), snd (with_resolved_loop (array_array_codecs p) s))]
     @ map (\<lambda>x. (BB (fst x), snd x))
         (fst (with_resolved_loop (bytes_bytes_codecs p)
                (map (resolve_metadata (array_bytes_codec p))
                   (snd (with_resolved_loop (array_array_codecs p) s)))))"
  by (simp add: stage_specs_def codecs_with_resolved_unfold case_prod_unfold)

lemma encode_batched_specs:
  assumes al: "aligned p"
  shows "\<exists>evs. trace (snd (encode_batched p xs w)) = trace w @ evs
      \<and> prefix (codec_calls evs) (map (\<lambda>x. (Enc (fst x), snd x)) (stage_specs p (map snd xs)))
      \<and> (\<forall>r. fst (encode_batched p xs w) = Inr r \<longrightarrow>
            codec_calls evs = map (\<lambda>x. (Enc (fst x), snd x)) (stage_specs p (map snd xs))
            \<and> length r = length xs)"
proof -
  let ?ab = "array_bytes_codec p"
  let ?s = "map snd xs"
  define aaw where "aaw = fst (with_resolved_loop (array_array_codecs p) ?s)"
  define sab where "sab = snd (with_resolved_loop (array_array_codecs p) ?s)"
  define bbw where
    "bbw = fst (with_resolved_loop (bytes_bytes_codecs p) (map (resolve_metadata ?ab) sab))"
  let ?aa = "map (\<lambda>x. (Enc (AA (fst x)), snd x)) aaw"
  let ?bb = "map (\<lambda>x. (Enc (BB (fst x)), snd x)) bbw"
  have full: "map (\<lambda>x. (Enc (fst x), snd x)) (stage_specs p ?s) = ?aa @ [(Enc (AB ?ab), sab)] @ ?bb"
    by (simp add: stage_specs_unfold aaw_def sab_def bbw_def o_def)
  have kaa: "\<forall>c \<in> set (array_array_codecs p). keeps_length c"
    and kab: "keeps_length ?ab" and kbb: "\<forall>c \<in> set (bytes_bytes_codecs p). keeps_length c"
    using al by (simp_all add: aligned_def)
  have lsab: "length sab = length xs"
    by (simp add: sab_def with_resolved_loop_final_length)
  obtain r1 w1 where l1:
    "encode_loop AA (array_array_codecs p) (map fst xs) ?s w = (r1, w1)"
    by fastforce
  from encode_loop_specs[OF kaa, of "map fst xs" ?s AA w] l1
  obtain evs1 where e1: "trace w1 = trace w @ evs1" "prefix (codec_calls evs1) ?aa"
      "\<forall>b' s'. r1 = Inr (b', s') \<longrightarrow> codec_calls evs1 = ?aa \<and> s' = sab \<and> length b' = length s'"
    by (auto simp: aaw_def sab_def case_prod_unfold)
  show ?thesis
  proof (cases r1)
    case (Inl e)
    have "encode_batched p xs w = (Inl e, w1)"
      using l1 Inl by (simp add: encode_batched_def unzip2_def)
    then show ?thesis using e1 full by (auto intro: prefix_prefix)
  next
    case (Inr bs1)
    obtain b1 s1 where bs1: "bs1 = (b1, s1)" by (cases bs1)
    have c1: "codec_calls evs1 = ?aa" and s1: "s1 = sab" and lb1: "length b1 = length sab"
      using e1 Inr bs1 by simp_all
    have fed: "map snd (zip b1 s1) = sab" using s1 lb1 by simp
    let ?ev = "CodecCall (Enc (AB ?ab)) (map snd (zip b1 s1))"
    let ?w2 = "emit ?ev w1"
    show ?thesis
    proof (cases "encode_batch ?ab (zip b1 s1)")
      case (Inl e)
      have "encode_batched p xs w = (Inl e, ?w2)"
        using l1 Inr bs1 Inl by (simp add: encode_batched_def unzip2_def Let_def)
      then show ?thesis
        apply (intro exI[of _ "evs1 @ [?ev]"])
        using e1 c1 full fed
        by (simp add: trace_emit codec_calls_append)
    next
      case ab: (Inr b2)
      let ?s2 = "resolve_batched ?ab s1"
      have lb2: "length b2 = length ?s2"
        using ab kab s1 lb1 by (auto simp: keeps_length_def resolve_batched_def)
      obtain r3 w3 where l3: "encode_loop BB (bytes_bytes_codecs p) b2 ?s2 ?w2 = (r3, w3)"
        by fastforce
      from encode_loop_specs[OF kbb lb2, of BB ?w2] l3
      obtain evs3 where e3: "trace w3 = trace ?w2 @ evs3" "prefix (codec_calls evs3) ?bb"
          "\<forall>b' s'. r3 = Inr (b', s') \<longrightarrow> codec_calls evs3 = ?bb \<and> length b' = length s'
               \<and> s' = snd (with_resolved_loop (bytes_bytes_codecs p) ?s2)"
        by (auto simp: bbw_def s1 resolve_batched_def case_prod_unfold)
      have eq: "encode_batched p xs w = (case r3 of Inl e \<Rightarrow> Inl e | Inr x \<Rightarrow> Inr (fst x), w3)"
        using l1 Inr bs1 ab l3
        by (simp add: encode_batched_def unzip2_def Let_def split: sum.splits prod.splits)
      have lens: "length (snd (with_resolved_loop (bytes_bytes_codecs p) ?s2)) = length xs"
        using lsab s1 by (simp add: with_resolved_loop_final_length resolve_batched_def)
      show ?thesis
        apply (intro exI[of _ "evs1 @ [?ev] @ evs3"])
        using e1 c1 e3 full eq fed lens
        by (auto simp: trace_emit codec_calls_append split: sum.splits)
    qed
  qed
qed

lemma decode_batched_specs:
  assumes al: "aligned p"
  shows "\<exists>evs. trace (snd (decode_batched p xs w)) = trace w @ evs
      \<and> prefix (codec_calls evs) (map (\<lambda>x. (Dec (fst x), snd x)) (rev (stage_specs p (map snd xs))))
      \<and> (\<forall>r. fst (decode_batched p xs w) = Inr r \<longrightarrow>
            codec_calls evs = map (\<lambda>x. (Dec (fst x), snd x)) (rev (stage_specs p (map snd xs)))
            \<and> length r = length xs)"
proof -
  let ?ab = "array_bytes_codec p"
  let ?s = "map snd xs"
  define aaw where "aaw = fst (with_resolved_loop (array_array_codecs p) ?s)"
  define sab where "sab = snd (with_resolved_loop (array_array_codecs p) ?s)"
  define bbw where
    "bbw = fst (with_resolved_loop (bytes_bytes_codecs p) (map (resolve_metadata ?ab) sab))"
  have cw: "codecs_with_resolved_metadata_batched p ?s = (aaw, (?ab, sab), bbw)"
    by (simp add: codecs_with_resolved_unfold aaw_def sab_def bbw_def)
  let ?aa = "map (\<lambda>x. (Dec (AA (fst x)), snd x)) (rev aaw)"
  let ?bb = "map (\<lambda>x. (Dec (BB (fst x)), snd x)) (rev bbw)"
  have full: "map (\<lambda>x. (Dec (fst x), snd x)) (rev (stage_specs p ?s)) = ?bb @ [(Dec (AB ?ab), sab)] @ ?aa"
    by (simp add: stage_specs_unfold aaw_def sab_def bbw_def o_def rev_map)
  have kab: "keeps_length ?ab" using al by (simp add: aligned_def)
  have lsab: "length sab = length xs"
    by (simp add: sab_def with_resolved_loop_final_length)
  have kbb: "\<forall>x \<in> set (rev bbw). keeps_length (fst x) \<and> length (snd x) = length (map fst xs)"
    using al with_resolved_loop_member[of _ "bytes_bytes_codecs p" "map (resolve_metadata ?ab) sab"] lsab
    by (auto simp: aligned_def bbw_def)
  have kaa: "\<And>b. length b = length xs \<Longrightarrow>
      \<forall>x \<in> set (rev aaw). keeps_length (fst x) \<and> length (snd x) = length b"
    using al with_resolved_loop_member[of _ "array_array_codecs p" ?s]
    by (auto simp: aligned_def aaw_def)
  obtain r1 w1 where l1: "decode_loop BB (rev bbw) (map fst xs) w = (r1, w1)"
    by fastforce
  from decode_loop_specs[OF kbb, of BB w] l1
  obtain evs1 where e1: "trace w1 = trace w @ evs1" "prefix (codec_calls evs1) ?bb"
      "\<forall>b'. r1 = Inr b' \<longrightarrow> codec_calls evs1 = ?bb \<and> length b' = length xs"
    by auto
  show ?thesis
  proof (cases r1)
    case (Inl e)
    have "decode_batched p xs w = (Inl e, w1)"
      using l1 Inl cw by (simp add: decode_batched_def unzip2_def)
    then show ?thesis using e1 full by (auto intro: prefix_prefix)
  next
    case (Inr b1)
    have c1: "codec_calls evs1 = ?bb" and lb1: "length b1 = length xs"
      using e1 Inr by simp_all
    have fed: "map snd (zip b1 sab) = sab" using lsab lb1 by simp
    let ?ev = "CodecCall (Dec (AB ?ab)) (map snd (zip b1 sab))"
    let ?w2 = "emit ?ev w1"
    show ?thesis
    proof (cases "decode_batch ?ab (zip b1 sab)")
      case (Inl e)
      have "decode_batched p xs w = (Inl e, ?w2)"
        using l1 Inr Inl cw by (simp add: decode_batched_def unzip2_def Let_def)
      then show ?thesis
        apply (intro exI[of _ "evs1 @ [?ev]"])
        using e1 c1 full fed
        by (simp add: trace_emit codec_calls_append)
    next
      case ab: (Inr b2)
      have lb2: "length b2 = length xs"
        using ab kab lsab lb1 by (auto simp: keeps_length_def)
      obtain r3 w3 where l3: "decode_loop AA (rev aaw) b2 ?w2 = (r3, w3)"
        by fastforce
      from decode_loop_specs[OF kaa[OF lb2], of AA ?w2] l3 lb2
      obtain evs3 where e3: "trace w3 = trace ?w2 @ evs3" "prefix (codec_calls evs3) ?aa"
          "\<forall>b'. r3 = Inr b' \<longrightarrow> codec_calls evs3 = ?aa \<and> length b' = length xs"
        by auto
      have eq: "decode_batched p xs w = (r3, w3)"
        using l1 Inr ab l3 cw
        by (simp add: decode_batched_def unzip2_def Let_def)
      show ?thesis
        apply (intro exI[of _ "evs1 @ [?ev] @ evs3"])
        using e1 c1 e3 full eq fed
        by (auto simp: trace_emit codec_calls_append)
    qed
  qed
qed

section \<open>Order of the codec stages\<close>


lemma example_encode_succeeds:
  "fst (encode_batched example_pipeline [(Some (Arr [Elem 1, Elem 2]), example_spec)] empty_world)
     = Inr [Some [5, 4]]"
  by (simp add: encode_batched_def unzip2_def example_pipeline_def offset_codec_def
        bytes_codec_def reverse_codec_def Let_def resolve_batched_def)

lemma example_decode_succeeds:
  "fst (decode_batched example_pipeline [(Some [5, 4], example_spec)] empty_world)
     = Inr [Some (Arr [Elem 1, Elem 2])]"
  by (simp add: decode_batched_def unzip2_def example_pipeline_def offset_codec_def
        bytes_codec_def reverse_codec_def Let_def codecs_with_resolved_metadata_batched_def
        example_spec_def upt_rec numeral_2_eq_2)



section \<open>Spec propagation\<close>

text \<open>
  Claim C2. For codecs that return one output per input, the specs each codec is handed
  by \<open>encode_batched\<close> are, stage by stage, the specs that
  \<open>_codecs_with_resolved_metadata_batched\<close> pairs with that codec, and \<open>decode_batched\<close>
  hands out the same (codec, specs) pairs in reverse order.
\<close>

theorem spec_propagation:
  assumes "aligned p"
  shows "prefix (codec_calls (new_events w (snd (encode_batched p xs w))))
           (map (\<lambda>x. (Enc (fst x), snd x)) (stage_specs p (map snd xs)))
   \<and> (\<forall>r. fst (encode_batched p xs w) = Inr r \<longrightarrow>
         codec_calls (new_events w (snd (encode_batched p xs w))) =
           map (\<lambda>x. (Enc (fst x), snd x)) (stage_specs p (map snd xs)))
   \<and> prefix (codec_calls (new_events w (snd (decode_batched p ys w))))
           (map (\<lambda>x. (Dec (fst x), snd x)) (rev (stage_specs p (map snd ys))))
   \<and> (\<forall>r. fst (decode_batched p ys w) = Inr r \<longrightarrow>
         codec_calls (new_events w (snd (decode_batched p ys w))) =
           map (\<lambda>x. (Dec (fst x), snd x)) (rev (stage_specs p (map snd ys))))"
proof -
  from encode_batched_specs[OF assms, of xs w] obtain evs where
    e: "trace (snd (encode_batched p xs w)) = trace w @ evs"
       "prefix (codec_calls evs) (map (\<lambda>x. (Enc (fst x), snd x)) (stage_specs p (map snd xs)))"
       "\<forall>r. fst (encode_batched p xs w) = Inr r \<longrightarrow>
          codec_calls evs = map (\<lambda>x. (Enc (fst x), snd x)) (stage_specs p (map snd xs))"
    by blast
  from decode_batched_specs[OF assms, of ys w] obtain dvs where
    d: "trace (snd (decode_batched p ys w)) = trace w @ dvs"
       "prefix (codec_calls dvs) (map (\<lambda>x. (Dec (fst x), snd x)) (rev (stage_specs p (map snd ys))))"
       "\<forall>r. fst (decode_batched p ys w) = Inr r \<longrightarrow>
          codec_calls dvs = map (\<lambda>x. (Dec (fst x), snd x)) (rev (stage_specs p (map snd ys)))"
    by blast
  show ?thesis
    using e d by (simp add: new_events_app[OF e(1)] new_events_app[OF d(1)])
qed

lemma example_pipeline_aligned: "aligned example_pipeline"
  by (auto simp: aligned_def keeps_length_def example_pipeline_def offset_codec_def
        bytes_codec_def reverse_codec_def)

lemma example_stage_specs:
  "stage_specs example_pipeline [example_spec] =
     [(AA (offset_codec 1), [example_spec]),
      (AA (offset_codec 2), [example_spec\<lparr>fill_value := 1\<rparr>]),
      (AB bytes_codec, [example_spec\<lparr>fill_value := 3\<rparr>]),
      (BB reverse_codec, [example_spec\<lparr>fill_value := 3\<rparr>])]"
  by (simp add: stage_specs_def codecs_with_resolved_metadata_batched_def example_pipeline_def
        Let_def example_spec_def)
     (simp add: offset_codec_def bytes_codec_def)

theorem spec_propagation_witness:
  "aligned example_pipeline
   \<and> codec_calls (new_events empty_world (snd (encode_batched example_pipeline
       [(Some (Arr [Elem 1, Elem 2]), example_spec)] empty_world))) =
     [(Enc (AA (offset_codec 1)), [example_spec]),
      (Enc (AA (offset_codec 2)), [example_spec\<lparr>fill_value := 1\<rparr>]),
      (Enc (AB bytes_codec), [example_spec\<lparr>fill_value := 3\<rparr>]),
      (Enc (BB reverse_codec), [example_spec\<lparr>fill_value := 3\<rparr>])]
   \<and> codec_calls (new_events empty_world (snd (decode_batched example_pipeline
       [(Some [5, 4], example_spec)] empty_world))) =
     [(Dec (BB reverse_codec), [example_spec\<lparr>fill_value := 3\<rparr>]),
      (Dec (AB bytes_codec), [example_spec\<lparr>fill_value := 3\<rparr>]),
      (Dec (AA (offset_codec 2)), [example_spec\<lparr>fill_value := 1\<rparr>]),
      (Dec (AA (offset_codec 1)), [example_spec])]"
  using spec_propagation[OF example_pipeline_aligned, of empty_world
      "[(Some (Arr [Elem 1, Elem 2]), example_spec)]" "[(Some [5, 4], example_spec)]"]
    example_encode_succeeds example_decode_succeeds example_pipeline_aligned
  by (simp add: example_stage_specs)

section \<open>Store operations and the bounded map\<close>

lemma world_trace_same [simp]: "w\<lparr>trace := trace w\<rparr> = w"
  by simp

lemma concurrent_map_store_get:
  "concurrent_map ks store_get w =
     (Inr (map (store w) ks), w\<lparr>trace := trace w @ map StoreGet ks\<rparr>)"
proof (induction ks arbitrary: w)
  case Nil
  then show ?case by simp
next
  case (Cons k ks)
  have h: "store_get k w = (Inr (store w k), emit (StoreGet k) w)"
    by (simp add: store_get_def)
  show ?case
    by (simp add: h Cons.IH emit_def)
qed

lemma concurrent_map_read_key:
  "concurrent_map kos read_key w =
     (Inr (map (\<lambda>ko. case ko of None \<Rightarrow> None | Some k \<Rightarrow> store w k) kos),
      w\<lparr>trace := trace w @ map StoreGet (wanted_keys kos)\<rparr>)"
proof (induction kos arbitrary: w)
  case Nil
  then show ?case by (simp add: wanted_keys_def)
next
  case (Cons ko kos)
  have h: "read_key None w = (Inr None, w)"
    "\<And>k. read_key (Some k) w = (Inr (store w k), emit (StoreGet k) w)"
    by (simp_all add: read_key_def store_get_def)
  show ?case
    by (cases ko) (simp_all add: h Cons.IH emit_def wanted_keys_def)
qed

lemma apply_writes_simps [simp]:
  "apply_writes s [] = s"
  "apply_writes s (x # xs) = apply_writes (s(fst x := snd x)) xs"
  by (simp_all add: apply_writes_def)




lemma concurrent_map_delete_key:
  "concurrent_map ks (delete_key self) w =
     (Inr (map (\<lambda>x. ()) ks),
      w\<lparr>store := (\<lambda>k. if k \<in> path_join (store_path self) ` set ks then None else store w k),
        trace := trace w @ map (\<lambda>k. StoreDelete (path_join (store_path self) k)) ks\<rparr>)"
proof (induction ks arbitrary: w)
  case Nil
  then show ?case by simp
next
  case (Cons k ks)
  have h: "delete_key self k w =
      (Inr (), w\<lparr>store := (store w)(path_join (store_path self) k := None),
                   trace := trace w @ [StoreDelete (path_join (store_path self) k)]\<rparr>)"
    by (simp add: delete_key_def store_delete_def emit_def)
  show ?case
    by (auto simp: h Cons.IH fun_eq_iff intro!: world.equality)
qed

section \<open>Chunks that are None pass through the codecs\<close>

lemma passes_none_aligned: "passes_none p \<Longrightarrow> aligned p"
  by (simp add: passes_none_def aligned_def none_through_def keeps_length_def)

lemma decode_loop_none:
  assumes "\<forall>x \<in> set cs. none_through (fst x) \<and> length (snd x) = length b"
    and "decode_loop mk cs b w = (Inr b', w')"
  shows "length b' = length b \<and> (\<forall>i < length b. b ! i = None \<longrightarrow> b' ! i = None)"
  using assms
proof (induction cs arbitrary: b w)
  case Nil
  then show ?case by simp
next
  case (Cons cs1 cs)
  obtain c ss where cs1: "cs1 = (c, ss)" by (cases cs1)
  have nt: "none_through c" and ls: "length ss = length b" using Cons.prems(1) by (simp_all add: cs1)
  show ?case
  proof (cases "decode_batch c (zip b ss)")
    case (Inl e)
    then show ?thesis using Cons.prems(2) by (simp add: cs1 Let_def)
  next
    case (Inr b1)
    have step: "length b1 = length b \<and> (\<forall>i < length b. b ! i = None \<longrightarrow> b1 ! i = None)"
      using nt Inr ls unfolding none_through_def by (metis fst_conv length_zip min.idem nth_zip)
    have rest: "decode_loop mk cs b1 (emit (CodecCall (Dec (mk c)) (map snd (zip b ss))) w) = (Inr b', w')"
      using Cons.prems(2) Inr by (simp add: cs1 Let_def)
    have "\<forall>x \<in> set cs. none_through (fst x) \<and> length (snd x) = length b1"
      using Cons.prems(1) step by simp
    from Cons.IH[OF this rest] step show ?thesis by simp
  qed
qed


lemma decode_batched_none:
  assumes pn: "passes_none p" and run: "decode_batched p xs w = (Inr ys, w')"
  shows "length ys = length xs \<and> (\<forall>i < length xs. fst (xs ! i) = None \<longrightarrow> ys ! i = None)"
proof -
  let ?ab = "array_bytes_codec p"
  let ?s = "map snd xs"
  define aaw where "aaw = fst (with_resolved_loop (array_array_codecs p) ?s)"
  define sab where "sab = snd (with_resolved_loop (array_array_codecs p) ?s)"
  define bbw where
    "bbw = fst (with_resolved_loop (bytes_bytes_codecs p) (map (resolve_metadata ?ab) sab))"
  have cw: "codecs_with_resolved_metadata_batched p ?s = (aaw, (?ab, sab), bbw)"
    by (simp add: codecs_with_resolved_unfold aaw_def sab_def bbw_def)
  have ntab: "none_through ?ab" using pn by (simp add: passes_none_def)
  have lsab: "length sab = length xs"
    by (simp add: sab_def with_resolved_loop_final_length)
  have kbb: "\<forall>x \<in> set (rev bbw). none_through (fst x) \<and> length (snd x) = length (map fst xs)"
    using pn with_resolved_loop_member[of _ "bytes_bytes_codecs p" "map (resolve_metadata ?ab) sab"] lsab
    by (auto simp: passes_none_def bbw_def)
  have kaa: "\<And>b. length b = length xs \<Longrightarrow>
      \<forall>x \<in> set (rev aaw). none_through (fst x) \<and> length (snd x) = length b"
    using pn with_resolved_loop_member[of _ "array_array_codecs p" ?s]
    by (auto simp: passes_none_def aaw_def)
  obtain r1 w1 where l1: "decode_loop BB (rev bbw) (map fst xs) w = (r1, w1)"
    by fastforce
  obtain b1 where r1: "r1 = Inr b1"
    using run l1 cw by (cases r1) (simp_all add: decode_batched_def unzip2_def)
  from decode_loop_none[OF kbb l1[unfolded r1]]
  have n1: "length b1 = length xs" "\<forall>i < length xs. fst (xs ! i) = None \<longrightarrow> b1 ! i = None"
    by simp_all
  let ?w2 = "emit (CodecCall (Dec (AB ?ab)) (map snd (zip b1 sab))) w1"
  obtain b2 where ab: "decode_batch ?ab (zip b1 sab) = Inr b2"
    using run l1 r1 cw by (cases "decode_batch ?ab (zip b1 sab)")
      (simp_all add: decode_batched_def unzip2_def Let_def)
  have n2: "length b2 = length xs" "\<forall>i < length xs. b1 ! i = None \<longrightarrow> b2 ! i = None"
    using ntab ab n1(1) lsab unfolding none_through_def
    by (metis length_zip min.idem, metis fst_conv length_zip min.idem nth_zip)
  have l3: "decode_loop AA (rev aaw) b2 ?w2 = (Inr ys, w')"
    using run l1 r1 ab cw by (simp add: decode_batched_def unzip2_def Let_def)
  from decode_loop_none[OF kaa[OF n2(1)] l3] n1 n2 show ?thesis by simp
qed


section \<open>What a read does to the store\<close>

lemma zip_map_same: "zip (map f xs) xs = map (\<lambda>x. (f x, x)) xs"
  by (induction xs) auto

lemma store_ops_gets [simp]:
  "store_ops (map StoreGet ks) = map StoreGet ks"
  "store_ops (map (StoreGet \<circ> f) xs) = map (StoreGet \<circ> f) xs"
  by (induction ks) (auto simp: store_ops_def filter_map o_def)

lemma read_batched_full:
  assumes "\<not> supports_partial_decode p"
  shows "read_batched p batch out w =
     (case decode_batched p
             (map (\<lambda>(store_path, chunk_spec, chunk_selection, out_selection).
                     (store w store_path, chunk_spec)) batch)
             (w\<lparr>trace := trace w @ map StoreGet (map fst batch)\<rparr>) of
        (Inl e, w2) \<Rightarrow> ((Inl e, out), w2)
      | (Inr chunk_array_batch, w2) \<Rightarrow>
          (out_loop out_chunk (zip chunk_array_batch batch) out, w2))"
proof -
  have "map (\<lambda>(chunk_bytes, (store_path, chunk_spec, chunk_selection, out_selection)).
               (chunk_bytes, chunk_spec)) (zip (map (store w) (map fst batch)) batch)
        = map (\<lambda>(store_path, chunk_spec, chunk_selection, out_selection).
                 (store w store_path, chunk_spec)) batch"
    by (simp add: zip_map_same[of "\<lambda>x. store w (fst x)" batch, simplified o_def[symmetric]]
          o_def case_prod_unfold zip_map_same[of "\<lambda>x. store w (fst x)" batch])
  then show ?thesis
    using assms by (simp add: read_batched_def concurrent_map_store_get)
qed



lemma default_pipeline_not_partial_decode: "\<not> supports_partial_decode default_pipeline"
  by (simp add: supports_partial_decode_def default_pipeline_def bytes_codec_def)




section \<open>The partial-encode path of write_batched\<close>

lemma partial_items_length:
  "partial_items batch val = Inr items \<Longrightarrow> length items = length batch"
proof -
  have "collect rs = Inr xs \<Longrightarrow> length xs = length rs" for rs :: "(error + 'a) list" and xs
    by (induction rs arbitrary: xs rule: collect.induct) (auto split: sum.splits)
  then show "partial_items batch val = Inr items \<Longrightarrow> length items = length batch"
    by (fastforce simp: partial_items_def)
qed

lemma collect_nth:
  "collect rs = Inr xs \<Longrightarrow> i < length rs \<Longrightarrow> rs ! i = Inr (xs ! i)"
proof (induction rs arbitrary: xs i rule: collect.induct)
  case 1
  then show ?case by simp
next
  case (2 e rs)
  then show ?case by simp
next
  case (3 x rs)
  then show ?case by (cases i) (auto split: sum.splits)
qed

lemma collect_length: "collect rs = Inr xs \<Longrightarrow> length xs = length rs"
  by (induction rs arbitrary: xs rule: collect.induct) (auto split: sum.splits)

lemma partial_items_nth:
  assumes "partial_items batch val = Inr items" "i < length batch"
    "batch ! i = (k, spec, csel, osel)"
  shows "\<exists>v. value_getitem val osel = Inr v
             \<and> items ! i = (k, v, csel, spec)"
proof -
  let ?f = "\<lambda>(k, spec, csel, osel).
                     case value_getitem val osel of
                       Inl e \<Rightarrow> Inl e
                     | Inr v \<Rightarrow> Inr (k, v, csel, spec)"
  have "map ?f batch ! i = Inr (items ! i)"
    using assms(1,2) collect_nth[of "map ?f batch" items i] by (simp add: partial_items_def)
  then show ?thesis using assms(2,3) by (auto split: sum.splits)
qed

text \<open>
  Claim C9. When \<open>supports_partial_encode\<close> holds, the pipeline itself performs no store
  operation. If \<open>value[out_selection]\<close> raises for an item, nothing is dispatched; otherwise
  there is exactly one call, \<open>encode_partial_batched\<close> of the array-bytes codec, with one
  \<open>(store_path, value[out_selection], chunk_selection, spec)\<close> entry per batch item, and the
  result and the store are what that call leaves: no fill-value check is made and no key
  is deleted by the pipeline.
\<close>

theorem write_batched_partial_encode:
  assumes "supports_partial_encode p"
  shows "store_ops (new_events w (snd (write_batched p batch val w))) = []
   \<and> calls_of (new_events w (snd (write_batched p batch val w))) = []
   \<and> (\<forall>e. partial_items batch val = Inl e \<longrightarrow> write_batched p batch val w = (Inl e, w))
   \<and> (\<forall>items. partial_items batch val = Inr items \<longrightarrow>
         length items = length batch
         \<and> (\<forall>i < length batch.
               \<exists>v. value_getitem val (snd (snd (snd (batch ! i)))) = Inr v
                  \<and> items ! i = (fst (batch ! i), v, fst (snd (snd (batch ! i))),
                                   fst (snd (batch ! i))))
         \<and> new_events w (snd (write_batched p batch val w))
             = [EncodePartial (array_bytes_codec p) items]
         \<and> (\<exists>f. encode_partial_mixin (array_bytes_codec p) = Some f
                \<and> fst (write_batched p batch val w) = fst (f items (store w))
                \<and> store (snd (write_batched p batch val w)) = snd (f items (store w))))"
proof -
  obtain f where f: "encode_partial_mixin (array_bytes_codec p) = Some f"
    using assms by (auto simp: supports_partial_encode_def)
  show ?thesis
  proof (cases "partial_items batch val")
    case (Inl e)
    then have "write_batched p batch val w = (Inl e, w)"
      using assms by (simp add: write_batched_def)
    then show ?thesis using Inl by (simp add: new_events_def store_ops_def)
  next
    case (Inr items)
    let ?ev = "EncodePartial (array_bytes_codec p) items"
    have run: "write_batched p batch val w =
        (fst (f items (store w)), w\<lparr>trace := trace w @ [?ev], store := snd (f items (store w))\<rparr>)"
      using assms Inr f
      by (simp add: write_batched_def encode_partial_batched_def emit_def Let_def
            split: prod.splits)
    have "trace (snd (write_batched p batch val w)) = trace w @ [?ev]"
      by (simp add: run)
    note ne = new_events_app[OF this]
    have nth: "\<forall>i < length batch.
               \<exists>v. value_getitem val (snd (snd (snd (batch ! i)))) = Inr v
                  \<and> items ! i = (fst (batch ! i), v, fst (snd (snd (batch ! i))),
                                   fst (snd (batch ! i)))"
    proof (intro allI impI)
      fix i assume i: "i < length batch"
      obtain k s c o' where b: "batch ! i = (k, s, c, o')" by (cases "batch ! i") auto
      from partial_items_nth[OF Inr i b] show
        "\<exists>v. value_getitem val (snd (snd (snd (batch ! i)))) = Inr v
            \<and> items ! i = (fst (batch ! i), v, fst (snd (snd (batch ! i))), fst (snd (batch ! i)))"
        by (simp add: b)
    qed
    show ?thesis
      using Inr ne f run nth partial_items_length[OF Inr]
      by (simp add: store_ops_def)
  qed
qed

lemma partial_pipeline_partial_encode: "supports_partial_encode partial_pipeline"
  by (simp add: supports_partial_encode_def partial_pipeline_def partial_bytes_codec_def)

lemma example_partial_items:
  "partial_items example_batch (Array (np_zeros [4])) =
     Inr [(''a/c/0'', Arr [Elem 0, Elem 0], [(0, 2)], \<lparr>shape = [2], dtype = ''int32'', fill_value = 0\<rparr>),
          (''a/c/1'', Arr [Elem 0, Elem 0], [(0, 2)], \<lparr>shape = [2], dtype = ''int32'', fill_value = 0\<rparr>)]"
  by code_simp

theorem write_batched_partial_encode_witness:
  "supports_partial_encode partial_pipeline
   \<and> store_ops (new_events example_world
        (snd (write_batched partial_pipeline example_batch (Array (np_zeros [4])) example_world))) = []
   \<and> new_events example_world
        (snd (write_batched partial_pipeline example_batch (Array (np_zeros [4])) example_world))
      = [EncodePartial partial_bytes_codec
          [(''a/c/0'', Arr [Elem 0, Elem 0], [(0, 2)], \<lparr>shape = [2], dtype = ''int32'', fill_value = 0\<rparr>),
           (''a/c/1'', Arr [Elem 0, Elem 0], [(0, 2)], \<lparr>shape = [2], dtype = ''int32'', fill_value = 0\<rparr>)]]
   \<and> store (snd (write_batched partial_pipeline example_batch (Array (np_zeros [4])) example_world))
        ''a/c/1'' = Some [0, 0]"
proof -
  note t = write_batched_partial_encode[OF partial_pipeline_partial_encode,
      of example_world example_batch "Array (np_zeros [4])"]
  have ab: "array_bytes_codec partial_pipeline = partial_bytes_codec"
    by (simp add: partial_pipeline_def)
  have f: "encode_partial_mixin partial_bytes_codec =
      Some (\<lambda>items s. (Inr (), foldl partial_encode_one s items))"
    by (simp add: partial_bytes_codec_def)
  have s: "foldl partial_encode_one (store example_world)
      [(''a/c/0'', Arr [Elem 0, Elem 0], [(0, 2)], \<lparr>shape = [2], dtype = ''int32'', fill_value = 0\<rparr>),
       (''a/c/1'', Arr [Elem 0, Elem 0], [(0, 2)], \<lparr>shape = [2], dtype = ''int32'', fill_value = 0\<rparr>)]
      ''a/c/1'' = Some [0, 0]"
    by code_simp
  show ?thesis
    using t partial_pipeline_partial_encode s
    unfolding example_partial_items ab f by auto
qed

section \<open>setitem with a scalar value\<close>

text \<open>
  Claim C8. \<open>setitem\<close> passes a scalar through its normalisation, but \<open>write_batched\<close> then
  evaluates \<open>value[out_selection]\<close> on it, which raises \<open>TypeError\<close>: the write does not
  complete. Here on the array of extent 4 in chunks of 2 with the default codec list and
  an empty store, for \<open>setitem([0:4], 1)\<close>; nothing is written.
\<close>

theorem setitem_scalar_raises:
  "fst (setitem example_array [(0, 4)] (Scalar 1) empty_world) = Inl TypeError
   \<and> store_ops (trace (snd (setitem example_array [(0, 4)] (Scalar 1) empty_world))) = []"
  by code_simp

section \<open>The read phase of write_batched\<close>

lemma decode_loop_fst: "fst (decode_loop mk cs b w) = fst (decode_loop mk cs b w2)"
proof (induction cs arbitrary: b w w2)
  case Nil
  then show ?case by simp
next
  case (Cons c cs)
  obtain c1 ss where c: "c = (c1, ss)" by (cases c)
  show ?case
    using Cons.IH by (cases "decode_batch c1 (zip b ss)") (simp_all add: c Let_def)
qed

lemma decode_batched_fst: "fst (decode_batched p xs w) = fst (decode_batched p xs w2)"
proof -
  let ?ab = "array_bytes_codec p"
  define aaw where "aaw = fst (with_resolved_loop (array_array_codecs p) (map snd xs))"
  define sab where "sab = snd (with_resolved_loop (array_array_codecs p) (map snd xs))"
  define bbw where
    "bbw = fst (with_resolved_loop (bytes_bytes_codecs p) (map (resolve_metadata ?ab) sab))"
  have cw: "codecs_with_resolved_metadata_batched p (map snd xs) = (aaw, (?ab, sab), bbw)"
    by (simp add: codecs_with_resolved_unfold aaw_def sab_def bbw_def)
  obtain r1 w1 where l1: "decode_loop BB (rev bbw) (map fst xs) w = (r1, w1)" by fastforce
  obtain r1' w1' where l1': "decode_loop BB (rev bbw) (map fst xs) w2 = (r1', w1')" by fastforce
  have r: "r1' = r1"
    using decode_loop_fst[of BB "rev bbw" "map fst xs" w w2] l1 l1' by simp
  show ?thesis
  proof (cases r1)
    case (Inl e)
    then show ?thesis using l1 l1' r cw by (simp add: decode_batched_def unzip2_def)
  next
    case (Inr b1)
    show ?thesis
    proof (cases "decode_batch ?ab (zip b1 sab)")
      case (Inl e)
      then show ?thesis using l1 l1' r cw Inr
        by (simp add: decode_batched_def unzip2_def Let_def)
    next
      case ab: (Inr b2)
      show ?thesis
        using l1 l1' r cw Inr ab
          decode_loop_fst[of AA "rev aaw" b2
            "emit (CodecCall (Dec (AB ?ab)) (map snd (zip b1 sab))) w1"
            "emit (CodecCall (Dec (AB ?ab)) (map snd (zip b1 sab))) w1'"]
        by (simp add: decode_batched_def unzip2_def Let_def)
    qed
  qed
qed

lemma wanted_fetched:
  "wanted_keys (map (\<lambda>(k, spec, csel, osel).
        if is_total_slice csel (shape spec) then None else Some k) batch) = fetched_keys batch"
  by (induction batch)
     (auto simp: wanted_keys_def fetched_keys_def item_total_def item_key_def
        item_chunk_selection_def item_spec_def)

lemma read_existing_unfold:
  "read_existing p batch w =
     decode_batched p (map (\<lambda>item. (existing_bytes (store w) item, item_spec item)) batch)
       (w\<lparr>trace := trace w @ map StoreGet (fetched_keys batch)\<rparr>)"
proof -
  let ?ko = "\<lambda>(k, spec, csel, osel). if is_total_slice csel (shape spec) then None else Some k"
  have "map (\<lambda>(chunk_bytes, (k, chunk_spec, csel, osel)). (chunk_bytes, chunk_spec))
          (zip (map (\<lambda>ko. case ko of None \<Rightarrow> None | Some k \<Rightarrow> store w k) (map ?ko batch)) batch)
        = map (\<lambda>item. (existing_bytes (store w) item, item_spec item)) batch"
    by (induction batch)
       (auto simp: existing_bytes_def item_total_def item_key_def item_chunk_selection_def
          item_spec_def)
  then show ?thesis
    by (simp add: read_existing_def concurrent_map_read_key wanted_fetched)
qed

text \<open>
  Claim C5. In the read-modify-write path, the store operations of the read phase are one
  \<open>get()\<close> for each batch item whose chunk selection is not a total slice, and none for the
  others. What \<open>decode_batched\<close> is handed for a skipped item is \<open>None\<close>, the value a \<open>get()\<close>
  of an absent key returns, so the outcome does not depend on what the store holds at the
  skipped keys; and with codecs that pass \<open>None\<close> through, the decoded array is \<open>None\<close> for
  every skipped item and for every item whose key is absent.
\<close>

theorem read_existing_gets:
  "store_ops (new_events w (snd (read_existing p batch w)))
     = map StoreGet (map item_key (filter (\<lambda>item. \<not> item_total item) batch))
   \<and> store (snd (read_existing p batch w)) = store w
   \<and> read_existing p batch w =
       decode_batched p
         (map (\<lambda>item. (if item_total item then None else store w (item_key item), item_spec item))
            batch)
         (w\<lparr>trace := trace w
               @ map StoreGet (map item_key (filter (\<lambda>item. \<not> item_total item) batch))\<rparr>)
   \<and> (\<forall>w2. (\<forall>item \<in> set batch. \<not> item_total item \<longrightarrow> store w2 (item_key item) = store w (item_key item))
          \<longrightarrow> fst (read_existing p batch w2) = fst (read_existing p batch w))
   \<and> (passes_none p \<longrightarrow>
        (\<forall>arrays. fst (read_existing p batch w) = Inr arrays \<longrightarrow>
           length arrays = length batch
           \<and> (\<forall>i < length batch.
                 item_total (batch ! i) \<or> store w (item_key (batch ! i)) = None
                 \<longrightarrow> arrays ! i = None)))"
proof -
  let ?xs = "\<lambda>w. map (\<lambda>item. (existing_bytes (store w) item, item_spec item)) batch"
  let ?w1 = "w\<lparr>trace := trace w @ map StoreGet (fetched_keys batch)\<rparr>"
  from decode_batched_effect[of p "?xs w" ?w1] obtain evs where
    e: "trace (snd (decode_batched p (?xs w) ?w1)) = trace ?w1 @ evs"
       "store (snd (decode_batched p (?xs w) ?w1)) = store ?w1" "store_ops evs = []"
    by blast
  have "trace (snd (read_existing p batch w)) = trace w @ (map StoreGet (fetched_keys batch) @ evs)"
    using e(1) by (simp add: read_existing_unfold)
  from new_events_app[OF this] e(3)
  have ops: "store_ops (new_events w (snd (read_existing p batch w)))
      = map StoreGet (fetched_keys batch)"
    by (simp add: store_ops_append)
  have st: "store (snd (read_existing p batch w)) = store w"
    using e(2) by (simp add: read_existing_unfold)
  have indep: "fst (read_existing p batch w2) = fst (read_existing p batch w)"
    if "\<forall>item \<in> set batch. \<not> item_total item \<longrightarrow> store w2 (item_key item) = store w (item_key item)"
    for w2
  proof -
    have eq: "?xs w2 = ?xs w" using that by (auto simp: existing_bytes_def)
    show ?thesis
      unfolding read_existing_unfold eq by (rule decode_batched_fst)
  qed
  have none: "length arrays = length batch
           \<and> (\<forall>i < length batch.
                 item_total (batch ! i) \<or> store w (item_key (batch ! i)) = None
                 \<longrightarrow> arrays ! i = None)"
    if pn: "passes_none p" and r: "fst (read_existing p batch w) = Inr arrays" for arrays
  proof -
    have "decode_batched p (?xs w) ?w1 = (Inr arrays, snd (decode_batched p (?xs w) ?w1))"
      using r by (simp add: read_existing_unfold prod_eq_iff)
    from decode_batched_none[OF pn this] show ?thesis
      by (auto simp: existing_bytes_def)
  qed
  have fk: "fetched_keys batch = map item_key (filter (\<lambda>item. \<not> item_total item) batch)"
    by (simp add: fetched_keys_def)
  have eb: "(\<lambda>item. (existing_bytes (store w) item, item_spec item))
      = (\<lambda>item. (if item_total item then None else store w (item_key item), item_spec item))"
    by (simp add: existing_bytes_def fun_eq_iff)
  note unf = read_existing_unfold[of p batch w, unfolded fk eb]
  show ?thesis
    apply (intro conjI)
    subgoal using ops unfolding fk .
    subgoal by (rule st)
    subgoal by (rule unf)
    subgoal using indep by blast
    subgoal using none by blast
    done
qed

lemma bytes_codec_none_through: "none_through bytes_codec"
  by (auto simp: none_through_def bytes_codec_def)

lemma default_pipeline_passes_none: "passes_none default_pipeline"
  by (simp add: passes_none_def default_pipeline_def bytes_codec_none_through)

lemma mixed_batch_fetched:
  "map item_key (filter (\<lambda>item. \<not> item_total item) mixed_batch) = [''a/c/1'']"
  by code_simp

lemma mixed_batch_read: "fst (read_existing default_pipeline mixed_batch example_world) = Inr [None, None]"
  by code_simp

theorem read_existing_gets_witness:
  "passes_none default_pipeline
   \<and> item_total (mixed_batch ! 0) \<and> \<not> item_total (mixed_batch ! 1)
   \<and> store example_world (item_key (mixed_batch ! 0)) = Some [1, 2]
   \<and> store example_world (item_key (mixed_batch ! 1)) = None
   \<and> store_ops (new_events example_world (snd (read_existing default_pipeline mixed_batch example_world)))
       = [StoreGet ''a/c/1'']
   \<and> store (snd (read_existing default_pipeline mixed_batch example_world)) = store example_world
   \<and> fst (read_existing default_pipeline mixed_batch example_world) = Inr [None, None]"
proof -
  note t = read_existing_gets[of example_world default_pipeline mixed_batch]
  have a: "item_total (mixed_batch ! 0)" "\<not> item_total (mixed_batch ! 1)"
    "store example_world (item_key (mixed_batch ! 0)) = Some [1, 2]"
    "store example_world (item_key (mixed_batch ! 1)) = None"
    by code_simp+
  show ?thesis
    using t[THEN conjunct1] t[THEN conjunct2, THEN conjunct1] a default_pipeline_passes_none
      mixed_batch_read
    unfolding mixed_batch_fetched by simp
qed

section \<open>The full-decode path of read_batched\<close>

lemma stretch_elem: "stretch (Elem v) t = Some (np_full t v)"
  by (induction t) (simp_all add: np_ndim_def)

lemma np_broadcast_scalar: "np_broadcast_to (Elem v) t = Some (np_full t v)"
  by (simp add: np_broadcast_to_def np_ndim_def stretch_elem)

lemma np_setitem_scalar:
  "np_getitem a sel = Inr region \<Longrightarrow>
     np_setitem a sel (Elem v) = Inr (np_put a sel (np_full (np_shape region) v))"
  by (simp add: np_setitem_def np_broadcast_scalar)

text \<open>
  Claim C6. On the full-decode path \<open>read_batched\<close> hands \<open>decode_batched\<close> the bytes that
  \<open>get()\<close> returned for every item and then runs the output loop over the decoded chunks.
  For a decoded chunk that is not \<open>None\<close> the loop assigns
  \<open>out[out_selection] = chunk_array[chunk_selection]\<close>. With codecs that pass \<open>None\<close>
  through, an item whose key is absent has the decoded chunk \<open>None\<close>; for it the loop
  assigns \<open>out[out_selection] = chunk_spec.fill_value\<close>, which raises nothing when
  \<open>out_selection\<close> indexes \<open>out\<close> and overwrites that region with the fill value.
\<close>

theorem read_batched_full_decode:
  assumes "\<not> supports_partial_decode p"
  shows "(\<forall>arrays w2.
        decode_batched p (map (\<lambda>item. (store w (item_key item), item_spec item)) batch)
          (w\<lparr>trace := trace w @ map StoreGet (map item_key batch)\<rparr>) = (Inr arrays, w2)
        \<longrightarrow> read_batched p batch out w = (out_loop out_chunk (zip arrays batch) out, w2)
            \<and> (passes_none p \<longrightarrow>
                  length arrays = length batch
                  \<and> (\<forall>i < length batch.
                        store w (item_key (batch ! i)) = None \<longrightarrow> arrays ! i = None)))
   \<and> (\<forall>item a rest buf.
        out_loop out_chunk ((Some a, item) # rest) buf =
          (case np_getitem a (item_chunk_selection item) of
             Inl e \<Rightarrow> (Inl e, buf)
           | Inr tmp \<Rightarrow>
               (case np_setitem buf (item_out_selection item) tmp of
                  Inl e \<Rightarrow> (Inl e, buf)
                | Inr buf' \<Rightarrow> out_loop out_chunk rest buf')))
   \<and> (\<forall>item rest buf region.
        np_getitem buf (item_out_selection item) = Inr region \<longrightarrow>
        out_loop out_chunk ((None, item) # rest) buf =
          out_loop out_chunk rest
            (np_put buf (item_out_selection item)
               (np_full (np_shape region) (fill_value (item_spec item)))))"
proof -
  have xs: "map (\<lambda>(store_path, chunk_spec, chunk_selection, out_selection).
                     (store w store_path, chunk_spec)) batch
            = map (\<lambda>item. (store w (item_key item), item_spec item)) batch"
    by (simp add: item_key_def item_spec_def case_prod_unfold)
  have ks: "map fst batch = map item_key batch"
    by (simp add: item_key_def)
  have run: "read_batched p batch out w = (out_loop out_chunk (zip arrays batch) out, w2)
            \<and> (passes_none p \<longrightarrow>
                  length arrays = length batch
                  \<and> (\<forall>i < length batch.
                        store w (item_key (batch ! i)) = None \<longrightarrow> arrays ! i = None))"
    if d: "decode_batched p (map (\<lambda>item. (store w (item_key item), item_spec item)) batch)
          (w\<lparr>trace := trace w @ map StoreGet (map item_key batch)\<rparr>) = (Inr arrays, w2)"
    for arrays w2
  proof -
    have r: "read_batched p batch out w = (out_loop out_chunk (zip arrays batch) out, w2)"
      using d by (simp add: read_batched_full[OF assms] xs ks)
    have "length arrays = length batch
          \<and> (\<forall>i < length batch. store w (item_key (batch ! i)) = None \<longrightarrow> arrays ! i = None)"
      if pn: "passes_none p"
      using decode_batched_none[OF pn d] by simp
    then show ?thesis using r by blast
  qed
  have some: "out_loop out_chunk ((Some a, item) # rest) buf =
          (case np_getitem a (item_chunk_selection item) of
             Inl e \<Rightarrow> (Inl e, buf)
           | Inr tmp \<Rightarrow>
               (case np_setitem buf (item_out_selection item) tmp of
                  Inl e \<Rightarrow> (Inl e, buf)
                | Inr buf' \<Rightarrow> out_loop out_chunk rest buf'))" for item a rest buf
    by (simp add: out_chunk_def item_chunk_selection_def item_out_selection_def
          case_prod_unfold split: sum.splits)
  have none: "out_loop out_chunk ((None, item) # rest) buf =
          out_loop out_chunk rest
            (np_put buf (item_out_selection item)
               (np_full (np_shape region) (fill_value (item_spec item))))"
    if "np_getitem buf (item_out_selection item) = Inr region" for item rest buf region
    using np_setitem_scalar[OF that, of "fill_value (item_spec item)"]
    by (simp add: out_chunk_def item_out_selection_def item_spec_def case_prod_unfold)
  show ?thesis
    apply (intro conjI allI impI)
    subgoal for arrays w2 using run[of arrays w2] by blast
    subgoal for arrays w2 using run[of arrays w2] by blast
    subgoal for arrays w2 i using run[of arrays w2] by blast
    subgoal for item a rest buf by (rule some)
    subgoal for item rest buf region by (rule none)
    done
qed

lemma example_decode_fetched:
  "fst (decode_batched default_pipeline
          (map (\<lambda>item. (store example_world (item_key item), item_spec item)) example_batch)
          (example_world\<lparr>trace := trace example_world @ map StoreGet (map item_key example_batch)\<rparr>))
     = Inr [Some (Arr [Elem 1, Elem 2]), None]"
  by code_simp

lemma example_read_out:
  "out_loop out_chunk (zip [Some (Arr [Elem 1, Elem 2]), None] example_batch) (np_full [4] 9)
     = (Inr (), Arr [Elem 1, Elem 2, Elem 0, Elem 0])"
  by code_simp

theorem read_batched_full_decode_witness:
  "\<not> supports_partial_decode default_pipeline
   \<and> passes_none default_pipeline
   \<and> store example_world (item_key (example_batch ! 1)) = None
   \<and> fst (read_batched default_pipeline example_batch (np_full [4] 9) example_world)
       = (Inr (), Arr [Elem 1, Elem 2, Elem 0, Elem 0])"
proof -
  let ?d = "decode_batched default_pipeline
          (map (\<lambda>item. (store example_world (item_key item), item_spec item)) example_batch)
          (example_world\<lparr>trace := trace example_world @ map StoreGet (map item_key example_batch)\<rparr>)"
  have d: "?d = (Inr [Some (Arr [Elem 1, Elem 2]), None], snd ?d)"
    using example_decode_fetched by (simp add: prod_eq_iff)
  note t = read_batched_full_decode[OF default_pipeline_not_partial_decode,
      of example_world example_batch "np_full [4] 9", THEN conjunct1, rule_format, OF d]
  have a: "store example_world (item_key (example_batch ! 1)) = None"
    by code_simp
  note r = t[THEN conjunct1, unfolded example_read_out]
  show ?thesis
    using a default_pipeline_not_partial_decode default_pipeline_passes_none
    unfolding r by simp
qed

section \<open>Merging a chunk\<close>

lemma merge_chunk_array_total:
  "is_total_slice csel (shape spec) \<Longrightarrow>
     merge_chunk_array h existing new spec csel = (Inr new, h)"
  by (simp add: merge_chunk_array_def)

lemma merge_chunk_array_partial:
  assumes "\<not> is_total_slice csel (shape spec)" "new < length h"
  shows "merge_chunk_array h existing new spec csel =
     (case np_setitem (case existing of
                         None \<Rightarrow> np_full (shape spec) (fill_value spec)
                       | Some e \<Rightarrow> h ! e) csel (h ! new) of
        Inl err \<Rightarrow>
          (Inl err, h @ [case existing of
                           None \<Rightarrow> np_full (shape spec) (fill_value spec)
                         | Some e \<Rightarrow> h ! e])
      | Inr a \<Rightarrow> (Inr (length h), h @ [a]))"
  using assms
  by (cases existing) (simp_all add: merge_chunk_array_def alloc_def nth_append split: sum.splits)

lemma merged_chunk_eq:
  "merged_chunk existing new_slice spec csel =
     (if is_total_slice csel (shape spec) then Inr new_slice
      else np_setitem (case existing of
                         None \<Rightarrow> np_full (shape spec) (fill_value spec)
                       | Some a \<Rightarrow> a) csel new_slice)"
proof (cases "is_total_slice csel (shape spec)")
  case True
  then show ?thesis
    by (cases existing) (simp_all add: merged_chunk_def merge_chunk_array_total)
next
  case False
  show ?thesis
  proof (cases existing)
    case None
    then show ?thesis
      using False merge_chunk_array_partial[OF False, of 0 "[new_slice]" None]
      by (simp add: merged_chunk_def split: sum.splits)
  next
    case (Some a)
    then show ?thesis
      using False merge_chunk_array_partial[OF False, of 0 "[new_slice, a]" "Some 1"]
      by (simp add: merged_chunk_def split: sum.splits)
  qed
qed

lemma merge_batch_items:
  assumes "merge_batch existing_batch batch val = Inr merged"
  shows "length merged = min (length existing_batch) (length batch)
     \<and> (\<forall>i < length merged.
           \<exists>new_slice. value_getitem val (item_out_selection (batch ! i)) = Inr new_slice
              \<and> merged_chunk (existing_batch ! i) new_slice (item_spec (batch ! i))
                    (item_chunk_selection (batch ! i)) = Inr (merged ! i))"
proof -
  let ?rs = "map (merge_item val) (zip existing_batch batch)"
  have c: "collect ?rs = Inr merged" using assms by (simp add: merge_batch_def)
  have len: "length merged = min (length existing_batch) (length batch)"
    using collect_length[OF c] by simp
  have "\<exists>new_slice. value_getitem val (item_out_selection (batch ! i)) = Inr new_slice
              \<and> merged_chunk (existing_batch ! i) new_slice (item_spec (batch ! i))
                    (item_chunk_selection (batch ! i)) = Inr (merged ! i)"
    if i: "i < length merged" for i
  proof -
    have "?rs ! i = Inr (merged ! i)"
      using collect_nth[OF c, of i] i len by simp
    then have "merge_item val (existing_batch ! i, batch ! i) = Inr (merged ! i)"
      using i len by simp
    then show ?thesis
      by (auto simp: merge_item_def item_out_selection_def item_spec_def
            item_chunk_selection_def case_prod_unfold split: sum.splits)
  qed
  then show ?thesis using len by blast
qed

text \<open>
  Claim C3. \<open>_merge_chunk_array\<close> on a heap \<open>h\<close> of array objects: for a total slice it
  returns the object \<open>value[out_selection]\<close> itself and the heap is untouched. Otherwise
  it allocates one new object, a chunk-shaped buffer filled with \<open>fill_value\<close> when there
  is no existing array and a copy of the existing array when there is one, assigns
  \<open>value[out_selection]\<close> into it at \<open>chunk_selection\<close> and returns it; every object that
  was there before, the existing array among them, is as it was. In \<open>write_batched\<close>
  every merged array is the outcome of this on the decoded chunk and
  \<open>value[out_selection]\<close> of its batch item.
\<close>

theorem merge_chunk_array_cases:
  assumes "new < length h" and "\<forall>e. existing = Some e \<longrightarrow> e < length h"
  shows "(is_total_slice csel (shape spec) \<longrightarrow>
            merge_chunk_array h existing new spec csel = (Inr new, h))
   \<and> (\<not> is_total_slice csel (shape spec) \<longrightarrow>
        (\<forall>a. np_setitem (case existing of
                            None \<Rightarrow> np_full (shape spec) (fill_value spec)
                          | Some e \<Rightarrow> h ! e) csel (h ! new) = Inr a
              \<longrightarrow> merge_chunk_array h existing new spec csel = (Inr (length h), h @ [a]))
        \<and> (\<forall>err. np_setitem (case existing of
                              None \<Rightarrow> np_full (shape spec) (fill_value spec)
                            | Some e \<Rightarrow> h ! e) csel (h ! new) = Inl err
              \<longrightarrow> fst (merge_chunk_array h existing new spec csel) = Inl err)
        \<and> take (length h) (snd (merge_chunk_array h existing new spec csel)) = h)
   \<and> merged_chunk (map_option (\<lambda>e. h ! e) existing) (h ! new) spec csel =
        (case merge_chunk_array h existing new spec csel of
           (Inl err, h') \<Rightarrow> Inl err
         | (Inr r, h') \<Rightarrow> Inr (h' ! r))
   \<and> (\<forall>existing_batch batch val merged.
        merge_batch existing_batch batch val = Inr merged \<longrightarrow>
        length merged = min (length existing_batch) (length batch)
        \<and> (\<forall>i < length merged.
              \<exists>new_slice. value_getitem val (item_out_selection (batch ! i)) = Inr new_slice
                 \<and> merged_chunk (existing_batch ! i) new_slice (item_spec (batch ! i))
                       (item_chunk_selection (batch ! i)) = Inr (merged ! i)))"
proof -
  let ?base = "case existing of
                 None \<Rightarrow> np_full (shape spec) (fill_value spec)
               | Some e \<Rightarrow> h ! e"
  have total: "merge_chunk_array h existing new spec csel = (Inr new, h)"
    if "is_total_slice csel (shape spec)"
    using that by (rule merge_chunk_array_total)
  have part: "(\<forall>a. np_setitem ?base csel (h ! new) = Inr a
              \<longrightarrow> merge_chunk_array h existing new spec csel = (Inr (length h), h @ [a]))
        \<and> (\<forall>err. np_setitem ?base csel (h ! new) = Inl err
              \<longrightarrow> fst (merge_chunk_array h existing new spec csel) = Inl err)
        \<and> take (length h) (snd (merge_chunk_array h existing new spec csel)) = h"
    if nt: "\<not> is_total_slice csel (shape spec)"
    by (cases "np_setitem ?base csel (h ! new)")
       (simp_all add: merge_chunk_array_partial[OF nt assms(1)])
  have val: "merged_chunk (map_option (\<lambda>e. h ! e) existing) (h ! new) spec csel =
        (case merge_chunk_array h existing new spec csel of
           (Inl err, h') \<Rightarrow> Inl err
         | (Inr r, h') \<Rightarrow> Inr (h' ! r))"
  proof (cases "is_total_slice csel (shape spec)")
    case True
    then show ?thesis by (simp add: merged_chunk_eq merge_chunk_array_total)
  next
    case False
    then show ?thesis
      by (cases existing)
         (simp_all add: merged_chunk_eq merge_chunk_array_partial[OF False assms(1)]
            split: sum.splits)
  qed
  show ?thesis
    using total part val merge_batch_items by blast
qed

lemma example_total: "is_total_slice [(0, 2)] (shape example_spec)"
  and example_not_total: "\<not> is_total_slice [(0, 1)] (shape example_spec)"
  by code_simp+

lemma example_assign_existing:
  "np_setitem (Arr [Elem 1, Elem 2]) [(0, 1)] (Arr [Elem 7]) = Inr (Arr [Elem 7, Elem 2])"
  and example_assign_fresh:
  "np_setitem (np_full (shape example_spec) (fill_value example_spec)) [(0, 1)] (Arr [Elem 7])
     = Inr (Arr [Elem 7, Elem 0])"
  by code_simp+

theorem merge_chunk_array_cases_witness:
  "is_total_slice [(0, 2)] (shape example_spec)
   \<and> merge_chunk_array [Arr [Elem 5, Elem 6], Arr [Elem 1, Elem 2]] (Some 1) 0 example_spec [(0, 2)]
       = (Inr 0, [Arr [Elem 5, Elem 6], Arr [Elem 1, Elem 2]])
   \<and> \<not> is_total_slice [(0, 1)] (shape example_spec)
   \<and> merge_chunk_array [Arr [Elem 7], Arr [Elem 1, Elem 2]] (Some 1) 0 example_spec [(0, 1)]
       = (Inr 2, [Arr [Elem 7], Arr [Elem 1, Elem 2], Arr [Elem 7, Elem 2]])
   \<and> merge_chunk_array [Arr [Elem 7]] None 0 example_spec [(0, 1)]
       = (Inr 1, [Arr [Elem 7], Arr [Elem 7, Elem 0]])"
proof -
  have a: "merge_chunk_array [Arr [Elem 5, Elem 6], Arr [Elem 1, Elem 2]] (Some 1) 0 example_spec [(0, 2)]
       = (Inr 0, [Arr [Elem 5, Elem 6], Arr [Elem 1, Elem 2]])"
    using merge_chunk_array_cases[of 0 "[Arr [Elem 5, Elem 6], Arr [Elem 1, Elem 2]]" "Some 1"
        "[(0, 2)]" example_spec] example_total
    by simp
  have b: "merge_chunk_array [Arr [Elem 7], Arr [Elem 1, Elem 2]] (Some 1) 0 example_spec [(0, 1)]
       = (Inr 2, [Arr [Elem 7], Arr [Elem 1, Elem 2], Arr [Elem 7, Elem 2]])"
    using merge_chunk_array_cases[of 0 "[Arr [Elem 7], Arr [Elem 1, Elem 2]]" "Some 1"
        "[(0, 1)]" example_spec] example_not_total example_assign_existing
    by simp
  have c: "merge_chunk_array [Arr [Elem 7]] None 0 example_spec [(0, 1)]
       = (Inr 1, [Arr [Elem 7], Arr [Elem 7, Elem 0]])"
    using merge_chunk_array_cases[of 0 "[Arr [Elem 7]]" None "[(0, 1)]" example_spec]
      example_not_total example_assign_fresh
    by simp
  show ?thesis using a b c example_total example_not_total by simp
qed

section \<open>Arrays that equal the fill value everywhere\<close>









section \<open>Fill-value elision and the writes of write_batched\<close>
















section \<open>resize\<close>

lemma str_nat_hd: "str_nat n \<noteq> [] \<and> hd (str_nat n) \<in> set ''0123456789''"
proof (induction n rule: str_nat.induct)
  case (1 n)
  show ?case
  proof (cases "n < 10")
    case True
    then have "digit_char n \<in> set ''0123456789''"
      unfolding digit_char_def by (intro nth_mem) simp
    with True show ?thesis
      by (subst str_nat.simps, subst (2) str_nat.simps) simp
  next
    case False
    with 1 have ih: "str_nat (n div 10) \<noteq> [] \<and> hd (str_nat (n div 10)) \<in> set ''0123456789''"
      by simp
    have "str_nat n = str_nat (n div 10) @ [digit_char (n mod 10)]"
      using False by (subst str_nat.simps) simp
    with ih show ?thesis by simp
  qed
qed

lemma join_Cons: "join sep (x # xs) = x @ (if xs = [] then [] else sep @ join sep xs)"
  by (cases xs) simp_all

lemma encode_chunk_key_hd:
  "encode_chunk_key enc c \<noteq> [] \<and> hd (encode_chunk_key enc c) \<in> set ''c0123456789''"
proof (cases enc)
  case (DefaultChunkKeyEncoding sep)
  then show ?thesis by (simp add: join_Cons)
next
  case (V2ChunkKeyEncoding sep)
  show ?thesis
  proof (cases c)
    case Nil
    with V2ChunkKeyEncoding show ?thesis by simp
  next
    case (Cons n ns)
    have "str_nat n \<noteq> []" and "hd (str_nat n) \<in> set ''0123456789''"
      using str_nat_hd[of n] by blast+
    with V2ChunkKeyEncoding Cons show ?thesis
      by (auto simp: join_Cons Let_def)
  qed
qed

lemma encode_chunk_key_not_zarr_json: "encode_chunk_key enc c \<noteq> ZARR_JSON"
proof
  assume "encode_chunk_key enc c = ZARR_JSON"
  with encode_chunk_key_hd[of enc c] show False
    by (simp add: ZARR_JSON_def)
qed

lemma path_join_inject: "path_join r a = path_join r b \<longleftrightarrow> a = b"
  by (simp add: path_join_def)

lemma chunk_key_not_zarr_json: "chunk_key self c \<noteq> path_join (store_path self) ZARR_JSON"
  by (simp add: chunk_key_def path_join_inject encode_chunk_key_not_zarr_json)

lemma resize_unfold:
  assumes "length new_shape = length (shape_md (metadata self))"
    and "chunk_grid (metadata self) = RegularChunkGrid chunk_shape"
  shows "resize to_bytes self new_shape True w =
     (Inr (self\<lparr>metadata := (metadata self)\<lparr>shape_md := new_shape\<rparr>\<rparr>),
      w\<lparr>store := (\<lambda>k. if k \<in> chunk_key self `
                           (set (all_chunk_coords (shape_md (metadata self)) chunk_shape)
                            - set (all_chunk_coords new_shape chunk_shape))
                       then None else store w k)
                  (path_join (store_path self) ZARR_JSON \<mapsto>
                     to_bytes ((metadata self)\<lparr>shape_md := new_shape\<rparr>)),
        trace := trace w
          @ map (\<lambda>c. StoreDelete (chunk_key self c))
              (filter (\<lambda>c. c \<notin> set (all_chunk_coords new_shape chunk_shape))
                 (remdups (all_chunk_coords (shape_md (metadata self)) chunk_shape)))
          @ [StoreSet (path_join (store_path self) ZARR_JSON)
               (to_bytes ((metadata self)\<lparr>shape_md := new_shape\<rparr>))]\<rparr>)"
proof -
  define old where "old = all_chunk_coords (shape_md (metadata self)) chunk_shape"
  define new where "new = all_chunk_coords new_shape chunk_shape"
  define ks where "ks = map (encode_chunk_key (chunk_key_encoding (metadata self)))
      (filter (\<lambda>c. c \<notin> set (remdups new)) (remdups old))"
  have img: "path_join (store_path self) ` set ks = chunk_key self ` (set old - set new)"
    by (auto simp: ks_def chunk_key_def image_iff)
  have tr: "map (\<lambda>k. StoreDelete (path_join (store_path self) k)) ks
      = map (\<lambda>c. StoreDelete (chunk_key self c)) (filter (\<lambda>c. c \<notin> set new) (remdups old))"
    by (simp add: ks_def chunk_key_def o_def)
  have cm: "concurrent_map ks (delete_key self) w =
     (Inr (map (\<lambda>x. ()) ks),
      w\<lparr>store := (\<lambda>k. if k \<in> chunk_key self ` (set old - set new) then None else store w k),
        trace := trace w @ map (\<lambda>c. StoreDelete (chunk_key self c))
                             (filter (\<lambda>c. c \<notin> set new) (remdups old))\<rparr>)"
    unfolding concurrent_map_delete_key img tr ..
  have "resize to_bytes self new_shape True w =
      (case concurrent_map ks (delete_key self) w of
         (Inl e, w1) \<Rightarrow> (Inl e, w1)
       | (Inr deleted, w1) \<Rightarrow>
           (case store_set (path_join (store_path self) ZARR_JSON)
                   (to_bytes ((metadata self)\<lparr>shape_md := new_shape\<rparr>)) w1 of
              (Inl e, w2) \<Rightarrow> (Inl e, w2)
            | (Inr u, w2) \<Rightarrow>
                (Inr (self\<lparr>metadata := (metadata self)\<lparr>shape_md := new_shape\<rparr>\<rparr>), w2)))"
    unfolding resize_def ks_def old_def new_def using assms by (simp add: Let_def)
  then show ?thesis
    unfolding cm old_def new_def by (simp add: store_set_def emit_def)
qed

lemma resize_keep_unfold:
  assumes "length new_shape = length (shape_md (metadata self))"
    and "chunk_grid (metadata self) = RegularChunkGrid chunk_shape"
  shows "resize to_bytes self new_shape False w =
     (Inr (self\<lparr>metadata := (metadata self)\<lparr>shape_md := new_shape\<rparr>\<rparr>),
      w\<lparr>store := (store w)(path_join (store_path self) ZARR_JSON \<mapsto>
                     to_bytes ((metadata self)\<lparr>shape_md := new_shape\<rparr>)),
        trace := trace w
          @ [StoreSet (path_join (store_path self) ZARR_JSON)
               (to_bytes ((metadata self)\<lparr>shape_md := new_shape\<rparr>))]\<rparr>)"
  using assms by (simp add: resize_def Let_def store_set_def emit_def)

lemma example_grids:
  "all_chunk_coords [4] [2] = [[0], [1]]"
  "all_chunk_coords [2] [2] = [[0]]"
  "all_chunk_coords [1] [2] = [[0]]"
  "all_chunk_coords [Suc 0] [2] = [[0]]"
  by code_simp+

lemma example_chunk_keys:
  "chunk_key example_array [0] = ''a/c/0''"
  "chunk_key example_array [1] = ''a/c/1''"
  "chunk_key kept_array [0] = ''a/c/0''"
  "chunk_key kept_array [1] = ''a/c/1''"
  "chunk_key example_array [Suc 0] = ''a/c/1''"
  "chunk_key kept_array [Suc 0] = ''a/c/1''"
  "path_join (store_path example_array) ZARR_JSON = ''a/zarr.json''"
  "path_join (store_path kept_array) ZARR_JSON = ''a/zarr.json''"
  by code_simp+

lemma example_array_facts:
  "shape_md (metadata example_array) = [4]"
  "chunk_grid (metadata example_array) = RegularChunkGrid [2]"
  "shape_md (metadata kept_array) = [2]"
  "chunk_grid (metadata kept_array) = RegularChunkGrid [2]"
  "kept_array = example_array\<lparr>metadata := (metadata example_array)\<lparr>shape_md := [2]\<rparr>\<rparr>"
  by (simp_all add: example_array_def example_metadata_def kept_array_def)

lemma chunk_key_resized:
  "chunk_key (self\<lparr>metadata := (metadata self)\<lparr>shape_md := new_shape\<rparr>\<rparr>) = chunk_key self"
  by (simp add: chunk_key_def fun_eq_iff)

lemma kept_world_unfold:
  "resize shape_bytes example_array [2] False full_world = (Inr kept_array, kept_world)"
  "store kept_world = (store full_world)(''a/zarr.json'' \<mapsto> [2])"
proof -
  note r = resize_keep_unfold[of "[2]" example_array "[2]" shape_bytes full_world,
      unfolded example_array_facts(1), OF _ example_array_facts(2)]
  from r show "resize shape_bytes example_array [2] False full_world = (Inr kept_array, kept_world)"
    by (simp add: kept_world_def example_array_facts(5))
  from r show "store kept_world = (store full_world)(''a/zarr.json'' \<mapsto> [2])"
    by (simp add: kept_world_def example_chunk_keys shape_bytes_def)
qed

text \<open>
  C7, as stated, fails: the chunk keys present after \<open>resize(new_shape, True)\<close> need not be
  keys of the new grid. \<open>resize([2], delete_outside_chunks=False)\<close> on the array of extent
  4 leaves the chunk \<open>a/c/1\<close> in the store under an array of extent 2. A following
  \<open>resize([1], delete_outside_chunks=True)\<close>, of the same arity, succeeds and deletes
  nothing, because the old and the new grid both consist of the coordinate \<open>(0)\<close>; the key
  of the coordinate \<open>(1)\<close> is still present and is not the key of a coordinate of the new
  grid.
\<close>

theorem resize_leaves_stray_chunk_key:
  "resize shape_bytes example_array [2] False full_world = (Inr kept_array, kept_world)
   \<and> length [1::nat] = length (shape_md (metadata kept_array))
   \<and> fst (resize shape_bytes kept_array [1] True kept_world)
       = Inr (kept_array\<lparr>metadata := (metadata kept_array)\<lparr>shape_md := [1]\<rparr>\<rparr>)
   \<and> store (snd (resize shape_bytes kept_array [1] True kept_world)) (chunk_key kept_array [1])
       = Some [3, 4]
   \<and> chunk_key kept_array [1]
       \<in> chunk_keys_present (kept_array\<lparr>metadata := (metadata kept_array)\<lparr>shape_md := [1]\<rparr>\<rparr>)
           (snd (resize shape_bytes kept_array [1] True kept_world))
   \<and> chunk_key kept_array [1]
       \<notin> chunk_key (kept_array\<lparr>metadata := (metadata kept_array)\<lparr>shape_md := [1]\<rparr>\<rparr>)
           ` set (all_chunk_coords [1] [2])
   \<and> \<not> chunk_keys_present (kept_array\<lparr>metadata := (metadata kept_array)\<lparr>shape_md := [1]\<rparr>\<rparr>)
           (snd (resize shape_bytes kept_array [1] True kept_world))
         \<subseteq> chunk_key (kept_array\<lparr>metadata := (metadata kept_array)\<lparr>shape_md := [1]\<rparr>\<rparr>)
           ` set (all_chunk_coords [1] [2])"
proof -
  let ?r = "resize shape_bytes kept_array [1] True kept_world"
  let ?a = "kept_array\<lparr>metadata := (metadata kept_array)\<lparr>shape_md := [1]\<rparr>\<rparr>"
  note r = resize_unfold[of "[1]" kept_array "[2]" shape_bytes kept_world,
      unfolded example_array_facts(3), OF _ example_array_facts(4)]
  have f: "fst ?r = Inr ?a"
    using r by simp
  have s: "store (snd ?r) ''a/c/1'' = Some [3, 4]"
    using r by (simp add: example_grids example_chunk_keys kept_world_unfold(2) full_world_def)
  have p: "''a/c/1'' \<in> chunk_keys_present ?a (snd ?r)"
    unfolding chunk_keys_present_def chunk_key_resized
    using s example_chunk_keys(4) by (auto simp: dom_def intro: exI[of _ "[1]"])
  have n: "''a/c/1'' \<notin> chunk_key ?a ` set (all_chunk_coords [1] [2])"
    unfolding chunk_key_resized by (simp add: example_grids example_chunk_keys)
  from p n have ns: "\<not> chunk_keys_present ?a (snd ?r) \<subseteq> chunk_key ?a ` set (all_chunk_coords [1] [2])"
    by blast
  show ?thesis
    apply (intro conjI)
    subgoal by (rule kept_world_unfold(1))
    subgoal by (simp add: example_array_facts)
    subgoal by (rule f)
    subgoal unfolding example_chunk_keys by (rule s)
    subgoal unfolding example_chunk_keys by (rule p)
    subgoal unfolding example_chunk_keys by (rule n)
    subgoal by (rule ns)
    done
qed

text \<open>
  C7, amended. For a regular chunk grid and every \<open>new_shape\<close> of the arity of the current
  shape, \<open>resize(new_shape, delete_outside_chunks=True)\<close> returns the instance with the shape
  replaced (instances are values: the original is not touched). Its store operations are
  one \<open>delete\<close> for the key of every chunk coordinate of the old grid that is not in the new
  grid, followed by the \<open>set\<close> of \<open>zarr.json\<close> to the serialised new metadata, and the keys
  deleted are exactly the keys of the old coordinate set minus the new one. Afterwards
  \<open>zarr.json\<close> holds the new metadata, the deleted keys are absent and every other key is
  as before. If every chunk key present before the call is the key of a coordinate of the
  old grid, then every chunk key present afterwards is the key of a coordinate of the new
  grid.
\<close>

theorem resize_deletes_outside_chunks:
  assumes ar: "length new_shape = length (shape_md (metadata self))"
    and grid: "chunk_grid (metadata self) = RegularChunkGrid chunk_shape"
  shows "\<exists>w'. resize to_bytes self new_shape True w
                = (Inr (self\<lparr>metadata := (metadata self)\<lparr>shape_md := new_shape\<rparr>\<rparr>), w')
     \<and> new_events w w'
         = map (\<lambda>c. StoreDelete (chunk_key self c))
             (filter (\<lambda>c. c \<notin> set (all_chunk_coords new_shape chunk_shape))
                (remdups (all_chunk_coords (shape_md (metadata self)) chunk_shape)))
           @ [StoreSet (path_join (store_path self) ZARR_JSON)
                (to_bytes ((metadata self)\<lparr>shape_md := new_shape\<rparr>))]
     \<and> {k. StoreDelete k \<in> set (new_events w w')}
         = chunk_key self ` (set (all_chunk_coords (shape_md (metadata self)) chunk_shape)
                             - set (all_chunk_coords new_shape chunk_shape))
     \<and> store w' (path_join (store_path self) ZARR_JSON)
         = Some (to_bytes ((metadata self)\<lparr>shape_md := new_shape\<rparr>))
     \<and> (\<forall>c \<in> set (all_chunk_coords (shape_md (metadata self)) chunk_shape)
               - set (all_chunk_coords new_shape chunk_shape).
           store w' (chunk_key self c) = None)
     \<and> (\<forall>k. k \<notin> chunk_key self ` (set (all_chunk_coords (shape_md (metadata self)) chunk_shape)
                                     - set (all_chunk_coords new_shape chunk_shape))
              \<and> k \<noteq> path_join (store_path self) ZARR_JSON
            \<longrightarrow> store w' k = store w k)
     \<and> (chunk_keys_present self w
           \<subseteq> chunk_key self ` set (all_chunk_coords (shape_md (metadata self)) chunk_shape)
         \<longrightarrow> chunk_keys_present (self\<lparr>metadata := (metadata self)\<lparr>shape_md := new_shape\<rparr>\<rparr>) w'
           \<subseteq> chunk_key (self\<lparr>metadata := (metadata self)\<lparr>shape_md := new_shape\<rparr>\<rparr>)
               ` set (all_chunk_coords new_shape chunk_shape))"
proof -
  let ?old = "all_chunk_coords (shape_md (metadata self)) chunk_shape"
  let ?new = "all_chunk_coords new_shape chunk_shape"
  let ?D = "chunk_key self ` (set ?old - set ?new)"
  let ?z = "path_join (store_path self) ZARR_JSON"
  let ?b = "to_bytes ((metadata self)\<lparr>shape_md := new_shape\<rparr>)"
  let ?self' = "self\<lparr>metadata := (metadata self)\<lparr>shape_md := new_shape\<rparr>\<rparr>"
  let ?evs = "map (\<lambda>c. StoreDelete (chunk_key self c)) (filter (\<lambda>c. c \<notin> set ?new) (remdups ?old))
      @ [StoreSet ?z ?b]"
  define w' where "w' = w\<lparr>store := (\<lambda>k. if k \<in> ?D then None else store w k)(?z \<mapsto> ?b),
      trace := trace w @ ?evs\<rparr>"
  have run: "resize to_bytes self new_shape True w = (Inr ?self', w')"
    unfolding w'_def using resize_unfold[OF ar grid, of to_bytes w] by simp
  have st: "store w' = (\<lambda>k. if k \<in> ?D then None else store w k)(?z \<mapsto> ?b)"
    by (simp add: w'_def)
  have ev: "new_events w w' = ?evs"
    by (simp add: new_events_def w'_def)
  have del: "{k. StoreDelete k \<in> set (new_events w w')} = ?D"
    unfolding ev by (auto simp: image_iff)
  have z: "store w' ?z = Some ?b"
    by (simp add: st)
  have gone: "\<forall>c \<in> set ?old - set ?new. store w' (chunk_key self c) = None"
    by (auto simp: st chunk_key_not_zarr_json)
  have kept: "\<forall>k. k \<notin> ?D \<and> k \<noteq> ?z \<longrightarrow> store w' k = store w k"
    by (simp add: st)
  have sub: "chunk_keys_present self w \<subseteq> chunk_key self ` set ?old
      \<longrightarrow> chunk_keys_present ?self' w' \<subseteq> chunk_key ?self' ` set ?new"
  proof (intro impI subsetI)
    fix k
    assume pre: "chunk_keys_present self w \<subseteq> chunk_key self ` set ?old"
      and k: "k \<in> chunk_keys_present ?self' w'"
    from k obtain c where kc: "k = chunk_key self c" and pres: "store w' k \<noteq> None"
      unfolding chunk_keys_present_def chunk_key_resized by (auto simp: dom_def)
    have nz: "k \<noteq> ?z"
      using kc chunk_key_not_zarr_json[of self c] by simp
    from pres nz have nd: "k \<notin> ?D" and pw: "store w k \<noteq> None"
      by (auto simp: st split: if_splits)
    from pw kc have "k \<in> chunk_keys_present self w"
      unfolding chunk_keys_present_def by (auto simp: dom_def)
    with pre obtain c' where c': "c' \<in> set ?old" "k = chunk_key self c'"
      by auto
    with nd have "c' \<in> set ?new"
      by auto
    with c' show "k \<in> chunk_key ?self' ` set ?new"
      unfolding chunk_key_resized by simp
  qed
  show ?thesis
    apply (rule exI[of _ w'])
    apply (intro conjI)
    subgoal by (rule run)
    subgoal by (rule ev)
    subgoal by (rule del)
    subgoal by (rule z)
    subgoal by (rule gone)
    subgoal by (rule kept)
    subgoal by (rule sub)
    done
qed

theorem resize_deletes_outside_chunks_witness:
  "length [2::nat] = length (shape_md (metadata example_array))
   \<and> chunk_grid (metadata example_array) = RegularChunkGrid [2]
   \<and> chunk_keys_present example_array full_world
       \<subseteq> chunk_key example_array ` set (all_chunk_coords (shape_md (metadata example_array)) [2])
   \<and> fst (resize shape_bytes example_array [2] True full_world) = Inr kept_array
   \<and> new_events full_world (snd (resize shape_bytes example_array [2] True full_world))
       = [StoreDelete ''a/c/1'', StoreSet ''a/zarr.json'' [2]]
   \<and> store (snd (resize shape_bytes example_array [2] True full_world)) ''a/zarr.json'' = Some [2]
   \<and> store (snd (resize shape_bytes example_array [2] True full_world)) ''a/c/1'' = None
   \<and> store (snd (resize shape_bytes example_array [2] True full_world)) ''a/c/0'' = Some [1, 2]
   \<and> chunk_keys_present kept_array (snd (resize shape_bytes example_array [2] True full_world))
       \<subseteq> {''a/c/0''}"
proof -
  let ?r = "resize shape_bytes example_array [2] True full_world"
  have ex: "(\<exists>w. f = (a, w) \<and> Q w) \<Longrightarrow> fst f = a \<and> Q (snd f)"
    for f :: "(error + async_array) \<times> world" and a Q
    by auto
  have ar: "length [2::nat] = length (shape_md (metadata example_array))"
    by (simp add: example_array_facts)
  have pre: "chunk_keys_present example_array full_world
      \<subseteq> chunk_key example_array ` set (all_chunk_coords (shape_md (metadata example_array)) [2])"
    by (auto simp: chunk_keys_present_def full_world_def example_array_facts example_grids
        example_chunk_keys split: if_splits)
  note t = resize_deletes_outside_chunks[OF ar example_array_facts(2), of shape_bytes full_world,
      THEN ex, unfolded example_array_facts(1) example_array_facts(5)[symmetric]]
  have f: "fst ?r = Inr kept_array"
    using t[THEN conjunct1] .
  have e: "new_events full_world (snd ?r) = [StoreDelete ''a/c/1'', StoreSet ''a/zarr.json'' [2]]"
    using t[THEN conjunct2, THEN conjunct1]
    by (simp add: example_grids example_chunk_keys shape_bytes_def example_array_facts)
  have z: "store (snd ?r) ''a/zarr.json'' = Some [2]"
    using t[THEN conjunct2, THEN conjunct2, THEN conjunct2, THEN conjunct1]
    by (simp add: example_chunk_keys shape_bytes_def example_array_facts)
  have g: "store (snd ?r) ''a/c/1'' = None"
    using t[THEN conjunct2, THEN conjunct2, THEN conjunct2, THEN conjunct2, THEN conjunct1,
        rule_format, of "[1]"]
    by (simp add: example_grids example_chunk_keys)
  have k: "store (snd ?r) ''a/c/0'' = Some [1, 2]"
    using t[THEN conjunct2, THEN conjunct2, THEN conjunct2, THEN conjunct2, THEN conjunct2,
        THEN conjunct1, rule_format, of "''a/c/0''"]
    by (simp add: example_grids example_chunk_keys full_world_def)
  have s: "chunk_keys_present kept_array (snd ?r) \<subseteq> {''a/c/0''}"
    using t[THEN conjunct2, THEN conjunct2, THEN conjunct2, THEN conjunct2, THEN conjunct2,
        THEN conjunct2, rule_format] pre
    by (simp add: example_grids example_chunk_keys example_array_facts(1-4))
  show ?thesis
    apply (intro conjI)
    subgoal by (rule ar)
    subgoal by (rule example_array_facts(2))
    subgoal by (rule pre)
    subgoal by (rule f)
    subgoal by (rule e)
    subgoal by (rule z)
    subgoal by (rule g)
    subgoal by (rule k)
    subgoal by (rule s)
    done
qed

end
